theory Spec2Isabelle
  imports Main "HOL-Library.Sublist"
begin

section \<open>JavaScript values and strings\<close>

text \<open>
  The library is JavaScript. Payloads are JavaScript values; the fragment the protocol
  moves around is modelled by \<open>jsval\<close>. Numbers are the integer-valued ones. Strings are
  lists of code units (\<open>char\<close>).
\<close>

datatype jsval =
    JUndefined
  | JNull
  | JBool bool
  | JNum int
  | JStr string
  | JObj "(string \<times> jsval) list"

text \<open>\<open>!v\<close> is \<open>\<not> truthy v\<close>.\<close>

fun truthy :: "jsval \<Rightarrow> bool" where
  "truthy JUndefined = False"
| "truthy JNull = False"
| "truthy (JBool b) = b"
| "truthy (JNum n) = (n \<noteq> 0)"
| "truthy (JStr s) = (s \<noteq> [])"
| "truthy (JObj kvs) = True"

text \<open>Property read \<open>v.k\<close> on a value that is not \<open>null\<close> or \<open>undefined\<close>.\<close>

fun get_prop :: "jsval \<Rightarrow> string \<Rightarrow> jsval" where
  "get_prop (JObj kvs) k = (case map_of kvs k of Some v \<Rightarrow> v | None \<Rightarrow> JUndefined)"
| "get_prop v k = JUndefined"

text \<open>\<open>a && a.k\<close>: the left operand when it is falsy, the property otherwise.\<close>

definition and_prop :: "jsval \<Rightarrow> string \<Rightarrow> jsval" where
  "and_prop a k = (if truthy a then get_prop a k else a)"

text \<open>\<open>s.startsWith(t)\<close>, written with \<open>take\<close> so that it evaluates.\<close>

definition startsWith :: "string \<Rightarrow> string \<Rightarrow> bool" where
  "startsWith s t = (take (length t) s = t)"

text \<open>\<open>s.indexOf(t)\<close>: the position of the leftmost occurrence of \<open>t\<close>, or \<open>-1\<close>.\<close>

fun indexOf_from :: "string \<Rightarrow> string \<Rightarrow> nat \<Rightarrow> int" where
  "indexOf_from t [] k = (if t = [] then int k else - 1)"
| "indexOf_from t (c # cs) k =
     (if startsWith (c # cs) t then int k else indexOf_from t cs (Suc k))"

definition js_indexOf :: "string \<Rightarrow> string \<Rightarrow> int" where
  "js_indexOf s t = indexOf_from t s 0"

text \<open>
  \<open>s.split(sep)\<close>: the pieces of \<open>s\<close> between the occurrences of \<open>sep\<close>, found from
  left to right without overlap. An empty separator splits into code units.
\<close>

function split_from :: "string \<Rightarrow> string \<Rightarrow> string \<Rightarrow> string list" where
  "split_from sep cur [] = [cur]"
| "split_from sep cur (c # cs) =
     (if sep \<noteq> [] \<and> startsWith (c # cs) sep
      then cur # split_from sep [] (drop (length sep) (c # cs))
      else split_from sep (cur @ [c]) cs)"
  by pat_completeness auto
termination
  by (relation "measure (\<lambda>(sep, cur, s). length s)") auto

definition js_split :: "string \<Rightarrow> string \<Rightarrow> string list" where
  "js_split s sep = (if sep = [] then map (\<lambda>c. [c]) s else split_from sep [] s)"

text \<open>\<open>s.split(sep)[1]\<close>: the second piece, \<open>undefined\<close> when there is none.\<close>

definition split_1 :: "string \<Rightarrow> string \<Rightarrow> jsval" where
  "split_1 s sep = (case js_split s sep of a # b # rest \<Rightarrow> JStr b | _ \<Rightarrow> JUndefined)"

section \<open>Event names, warnings, serializers\<close>

text \<open>\<open>PostMessageEventNamesEnum\<close>.\<close>

definition LOADED :: string where "LOADED = ''__TAB__LOADED_EVENT__''"
definition CUSTOM :: string where "CUSTOM = ''__TAB__CUSTOM_EVENT__''"
definition HANDSHAKE :: string where "HANDSHAKE = ''__TAB__HANDSHAKE_EVENT__''"
definition ON_BEFORE_UNLOAD :: string where "ON_BEFORE_UNLOAD = ''__TAB__ON_BEFORE_UNLOAD__''"
definition PARENT_DISCONNECTED :: string where "PARENT_DISCONNECTED = ''__PARENT_DISCONNECTED__''"
definition HANDSHAKE_WITH_PARENT :: string where
  "HANDSHAKE_WITH_PARENT = ''__HANDSHAKE_WITH_PARENT__''"
definition PARENT_COMMUNICATED :: string where
  "PARENT_COMMUNICATED = ''__PARENT_COMMUNICATED__''"

definition event_names :: "string list" where
  "event_names = [LOADED, CUSTOM, HANDSHAKE, ON_BEFORE_UNLOAD, PARENT_DISCONNECTED,
     HANDSHAKE_WITH_PARENT, PARENT_COMMUNICATED]"

lemmas event_name_defs = LOADED_def CUSTOM_def HANDSHAKE_def ON_BEFORE_UNLOAD_def
  PARENT_DISCONNECTED_def HANDSHAKE_WITH_PARENT_def PARENT_COMMUNICATED_def

text \<open>
  \<open>WarningTextEnum\<close>: every failure of the library itself is \<open>throw new Error(text)\<close>
  with one of these texts. \<open>SerializerError\<close> is whatever the injected \<open>stringify\<close>
  throws where the library does not catch it.
\<close>

datatype error =
  INVALID_JSON | INVALID_DATA | CONFIG_REQUIRED | CUSTOM_EVENT | URL_REQUIRED | SerializerError

text \<open>
  The serializer is injected through the configuration (\<open>config.stringify\<close>,
  \<open>config.parse\<close>; \<open>JSON.stringify\<close> and \<open>JSON.parse\<close> when none is given), so the
  model takes both as functions. A call of \<open>stringify\<close> throws, returns \<open>undefined\<close>
  (as \<open>JSON.stringify(undefined)\<close> does) or returns a string; a call of \<open>parse\<close>
  throws (\<open>None\<close>) or returns a value.
\<close>

datatype strres = Throws | Undef | Text string

type_synonym stringify_fn = "jsval \<Rightarrow> strres"
type_synonym parse_fn = "jsval \<Rightarrow> jsval option"

section \<open>The message codec\<close>

text \<open>
  Encoding is the line \<open>msg = type + this.config.stringify(msg)\<close> of
  \<open>Child.sendMessageToParent\<close>; an exception of \<open>stringify\<close> is not caught there and is
  the result \<open>None\<close>. String concatenation turns \<open>undefined\<close> into its name.
\<close>

definition encode :: "stringify_fn \<Rightarrow> string \<Rightarrow> jsval \<Rightarrow> string option" where
  "encode stringify type msg =
     (case stringify msg of
        Throws \<Rightarrow> None
      | Undef \<Rightarrow> Some (type @ ''undefined'')
      | Text s \<Rightarrow> Some (type @ s))"

text \<open>
  Decoding is \<open>parse(data.split(type)[1])\<close>, as in \<open>Child.onCommunication\<close>,
  \<open>PostMessageListener._onCustomMessage\<close> and \<open>PostMessageListener._onBeforeUnload\<close>.
\<close>

definition decode :: "parse_fn \<Rightarrow> string \<Rightarrow> string \<Rightarrow> jsval option" where
  "decode parse data type = parse (split_1 data type)"

text \<open>A payload the serializer supports: it serializes to a string that parses back to it.\<close>

definition supports :: "stringify_fn \<Rightarrow> parse_fn \<Rightarrow> jsval \<Rightarrow> bool" where
  "supports stringify parse p =
     (case stringify p of Text s \<Rightarrow> parse (JStr s) = Some p | _ \<Rightarrow> False)"

text \<open>
  An injected serializer for string payloads: it puts the string between double quotes, as
  \<open>JSON.stringify\<close> does with a string that needs no escape, and takes them off again.
  Like \<open>JSON.parse\<close>, the parser returns \<open>null\<close> for \<open>null\<close>.
\<close>

definition quote_stringify :: stringify_fn where
  "quote_stringify v = (case v of JStr s \<Rightarrow> Text ([CHR 0x22] @ s @ [CHR 0x22]) | _ \<Rightarrow> Throws)"

definition quote_parse :: parse_fn where
  "quote_parse v =
     (case v of
        JStr t \<Rightarrow>
          (if 2 \<le> length t \<and> hd t = CHR 0x22 \<and> last t = CHR 0x22
           then Some (JStr (butlast (tl t))) else None)
      | JNull \<Rightarrow> Some JNull
      | _ \<Rightarrow> None)"

text \<open>
  \<open>QuoteJSONString\<close> of ECMAScript, which is \<open>JSON.stringify\<close> on a string: the code
  units between double quotes, with the escapes of the standard.
\<close>

definition hex_digit :: "nat \<Rightarrow> char" where
  "hex_digit n = ''0123456789abcdef'' ! (n mod 16)"




section \<open>Broadcast pre-processing\<close>

text \<open>
  \<open>tabUtils._preProcessMessage\<close>: serialize, and put the \<open>PARENT_COMMUNICATED\<close> name
  in front unless the serialized text is falsy or holds the name already. The value
  returned is a string or \<open>undefined\<close>.
\<close>

definition preProcessMessage :: "stringify_fn \<Rightarrow> jsval \<Rightarrow> error + strres" where
  "preProcessMessage stringify msg =
     (case stringify msg of
        Throws \<Rightarrow> Inl INVALID_JSON
      | Undef \<Rightarrow> Inr Undef
      | Text s \<Rightarrow>
          (if s \<noteq> [] \<and> js_indexOf s PARENT_COMMUNICATED = - 1
           then Inr (Text (PARENT_COMMUNICATED @ s))
           else Inr (Text s)))"

section \<open>Tab ids and the search of \<open>arrayUtils\<close>\<close>

text \<open>
  A tab id is the string of \<open>UUID.generate()\<close> or the number of the fallback
  \<open>tabUtils.tabs.length + 1\<close>; ids given to the public methods are strings or
  integer-valued numbers too. \<open>===\<close> on two ids is equality of \<open>idval\<close>.
\<close>

datatype idval = IdNum int | IdStr string

definition isWhiteSpace :: "char \<Rightarrow> bool" where
  "isWhiteSpace c = (c \<in> set [CHR 0x09, CHR 0x0A, CHR 0x0B, CHR 0x0C, CHR 0x0D, CHR 0x20, CHR 0xA0])"

definition isDigit :: "char \<Rightarrow> bool" where
  "isDigit c = (48 \<le> (of_char c :: nat) \<and> (of_char c :: nat) \<le> 57)"

definition isHexDigit :: "char \<Rightarrow> bool" where
  "isHexDigit c = (isDigit c \<or> c \<in> set ''abcdefABCDEF'')"

definition trimString :: "string \<Rightarrow> string" where
  "trimString s = rev (dropWhile isWhiteSpace (rev (dropWhile isWhiteSpace s)))"

text \<open>The grammar \<open>StringNumericLiteral\<close> of ECMAScript, after trimming.\<close>

definition isExponentPart :: "string \<Rightarrow> bool" where
  "isExponentPart r =
     (case r of
        [] \<Rightarrow> False
      | e # r1 \<Rightarrow>
          (e = CHR ''e'' \<or> e = CHR ''E'') \<and>
          (let r2 = (case r1 of [] \<Rightarrow> [] | c # r' \<Rightarrow> if c = CHR ''+'' \<or> c = CHR ''-'' then r' else r1)
           in r2 \<noteq> [] \<and> list_all isDigit r2))"

definition isStrUnsignedDecimalLiteral :: "string \<Rightarrow> bool" where
  "isStrUnsignedDecimalLiteral s =
     (s = ''Infinity'' \<or>
      (let ip = takeWhile isDigit s; r1 = dropWhile isDigit s
       in case r1 of
            [] \<Rightarrow> ip \<noteq> []
          | c # r2 \<Rightarrow>
              if c = CHR ''.''
              then (let fp = takeWhile isDigit r2; r3 = dropWhile isDigit r2
                    in (ip \<noteq> [] \<or> fp \<noteq> []) \<and> (r3 = [] \<or> isExponentPart r3))
              else ip \<noteq> [] \<and> isExponentPart r1))"

definition isStrDecimalLiteral :: "string \<Rightarrow> bool" where
  "isStrDecimalLiteral s =
     (case s of
        [] \<Rightarrow> False
      | c # r \<Rightarrow>
          if c = CHR ''+'' \<or> c = CHR ''-'' then isStrUnsignedDecimalLiteral r
          else isStrUnsignedDecimalLiteral s)"

definition isNonDecimalIntegerLiteral :: "string \<Rightarrow> bool" where
  "isNonDecimalIntegerLiteral s =
     (case s of
        z # p # r \<Rightarrow>
          z = CHR ''0'' \<and> r \<noteq> [] \<and>
          ((p \<in> set ''xX'' \<and> list_all isHexDigit r) \<or>
           (p \<in> set ''oO'' \<and> list_all (\<lambda>c. c \<in> set ''01234567'') r) \<or>
           (p \<in> set ''bB'' \<and> list_all (\<lambda>c. c \<in> set ''01'') r))
      | _ \<Rightarrow> False)"

text \<open>
  \<open>isNaN(value)\<close>: whether \<open>Number(value)\<close> is \<open>NaN\<close>. A string is a number when,
  trimmed, it is empty or a numeric literal.
\<close>

fun isNaN :: "idval \<Rightarrow> bool" where
  "isNaN (IdNum n) = False"
| "isNaN (IdStr s) =
     (let t = trimString s
      in t \<noteq> [] \<and> \<not> isStrDecimalLiteral t \<and> \<not> isNonDecimalIntegerLiteral t)"

text \<open>
  \<open>parseInt(value, 10)\<close>: the integer written by the longest prefix of decimal digits
  after leading white space and a sign, \<open>NaN\<close> (\<open>None\<close>) when there is no digit. The
  integer is exact here.
\<close>

definition digits_value :: "string \<Rightarrow> int" where
  "digits_value z = foldl (\<lambda>a c. 10 * a + (int (of_char c) - 48)) 0 z"

fun parseInt10 :: "idval \<Rightarrow> int option" where
  "parseInt10 (IdNum n) = Some n"
| "parseInt10 (IdStr s) =
     (let s1 = dropWhile isWhiteSpace s;
          sign = (case s1 of [] \<Rightarrow> 1 | c # r \<Rightarrow> if c = CHR ''-'' then - 1 else (1::int));
          s2 = (case s1 of [] \<Rightarrow> [] | c # r \<Rightarrow> if c = CHR ''+'' \<or> c = CHR ''-'' then r else s1);
          z = takeWhile isDigit s2
      in if z = [] then None else Some (sign * digits_value z))"

text \<open>\<open>===\<close> on two results of \<open>parseInt\<close>: \<open>NaN\<close> is equal to nothing.\<close>

definition num_strict_eq :: "int option \<Rightarrow> int option \<Rightarrow> bool" where
  "num_strict_eq a b = (case (a, b) of (Some x, Some y) \<Rightarrow> x = y | _ \<Rightarrow> False)"

text \<open>
  The loop of \<open>arrayUtils.searchByKeyName\<close>, with \<open>key obj\<close> for \<open>obj[key]\<close>: the
  index of the first match, \<open>-1\<close> when the loop ends without one.
\<close>

fun search_loop :: "('a \<Rightarrow> idval) \<Rightarrow> idval \<Rightarrow> 'a list \<Rightarrow> nat \<Rightarrow> int" where
  "search_loop key value [] i = - 1"
| "search_loop key value (obj # rest) i =
     (if \<not> isNaN value \<and> num_strict_eq (parseInt10 (key obj)) (parseInt10 value) then int i
      else if isNaN value \<and> key obj = value then int i
      else search_loop key value rest (Suc i))"

datatype returnPreferenceEnum = INDEX | OBJECT | BOTH

text \<open>
  What \<open>searchByKeyName\<close> returns. When nothing matches, the function stores an empty
  object under the property \<open>-1\<close> of the array (which is not an element: the length and
  the elements stay) and \<open>data[index]\<close> is that object, \<open>None\<close> here. Every caller
  passes an array and the key \<open>'id'\<close>, so the guard \<open>!data || !key\<close> is not taken.
\<close>

datatype 'a search_result = RIndex int | RObject "'a option" | RBoth "'a option" int

definition searchByKeyName ::
  "'a list \<Rightarrow> ('a \<Rightarrow> idval) \<Rightarrow> idval \<Rightarrow> returnPreferenceEnum option \<Rightarrow> 'a search_result" where
  "searchByKeyName data key value returnPreference =
     (let index = search_loop key value data 0;
          found = (if index = - 1 then None else Some (data ! nat index))
      in case returnPreference of
           Some INDEX \<Rightarrow> RIndex index
         | Some BOTH \<Rightarrow> RBoth found index
         | _ \<Rightarrow> RObject found)"

text \<open>
  \<open>array.splice(index, 1)\<close>: a negative index counts from the end, so \<open>-1\<close> is the
  last element.
\<close>

definition splice1 :: "int \<Rightarrow> 'a list \<Rightarrow> 'a list" where
  "splice1 index xs =
     (let len = int (length xs);
          start = (if index < 0 then max (len + index) 0 else min index len);
          deleteCount = min 1 (len - start)
      in take (nat start) xs @ drop (nat (start + deleteCount)) xs)"

section \<open>UUID\<close>

text \<open>\<open>num.toString(16)\<close> for a number that is a natural.\<close>

function toString16 :: "nat \<Rightarrow> string" where
  "toString16 n = (if n < 16 then [hex_digit n] else toString16 (n div 16) @ [hex_digit n])"
  by pat_completeness auto
termination
  by (relation "measure (\<lambda>n. n)") auto

declare toString16.simps [simp del]

text \<open>
  The loop of the function \<open>UUID._getIntAligner\<close> returns:
  \<open>for (; i > 0; i >>>= 1, z += z) if (i & 1) str = z + str\<close>.
\<close>

function aligner_loop :: "nat \<Rightarrow> string \<Rightarrow> string \<Rightarrow> string" where
  "aligner_loop i z str =
     (if 0 < i then aligner_loop (i div 2) (z @ z) (if odd i then z @ str else str) else str)"
  by pat_completeness auto
termination
  by (relation "measure (\<lambda>(i, z, str). i)") auto

declare aligner_loop.simps [simp del]

definition hexAligner :: "nat \<Rightarrow> nat \<Rightarrow> string" where
  "hexAligner num len =
     (let str = toString16 num in aligner_loop (len - length str) ''0'' str)"

text \<open>
  \<open>UUID.generate\<close>. The five calls of \<open>UUID._getRandomInt\<close> draw from
  \<open>Math.random\<close>; their results are the argument.
\<close>

record random_ints =
  rand32 :: nat
  rand16 :: nat
  rand12 :: nat
  rand14 :: nat
  rand48 :: nat

definition UUID_generate :: "random_ints \<Rightarrow> string" where
  "UUID_generate r =
     hexAligner (rand32 r) 8 @ ''-'' @
     hexAligner (rand16 r) 4 @ ''-'' @
     hexAligner (or 0x4000 (rand12 r)) 4 @ ''-'' @
     hexAligner (or 0x8000 (rand14 r)) 4 @ ''-'' @
     hexAligner (rand48 r) 12"

section \<open>The tab registry and the parent\<close>

text \<open>\<open>TabStatusEnum\<close>.\<close>

definition OPEN :: string where "OPEN = ''open''"
definition CLOSE :: string where "CLOSE = ''close''"

text \<open>
  A \<open>Tab\<close> object after \<open>create\<close>: the keys of the configuration copied by
  \<open>Object.assign\<close>, then \<open>id\<close>, \<open>status\<close> and \<open>ref\<close>. \<open>ref\<close> is what
  \<open>window.open\<close> returned: a window, named here by a number, or \<open>null\<close>.
\<close>

record tab =
  tab_id :: idval
  tab_status :: string
  tab_ref :: "nat option"
  tab_url :: jsval
  tab_name :: jsval
  tab_windowName :: jsval
  tab_windowFeatures :: jsval

text \<open>The argument of \<open>openNewTab\<close> and \<open>Tab.create\<close>.\<close>

record tab_config =
  cfg_url :: jsval
  cfg_name :: jsval
  cfg_windowName :: jsval
  cfg_windowFeatures :: jsval

text \<open>\<open>window.newlyTabOpened\<close> as \<open>Tab.create\<close> writes it.\<close>

record newly_opened =
  nt_id :: idval
  nt_name :: jsval
  nt_ref :: "nat option"

text \<open>
  The argument of \<open>new Parent(config)\<close>, a key that is not given being \<open>None\<close> or
  \<open>False\<close>, and the instance after the constructor has filled in the defaults and
  copied the keys onto \<open>this\<close>. The callbacks are the user's; the model records
  whether one is given.
\<close>

record parent_options =
  opt_heartBeatInterval :: "nat option"
  opt_shouldInitImmediately :: "bool option"
  opt_parse :: "parse_fn option"
  opt_stringify :: "stringify_fn option"
  opt_removeClosedTabs :: bool
  opt_origin :: "string option"
  opt_onPollingCallback :: bool

record parent =
  heartBeatInterval :: nat
  shouldInitImmediately :: bool
  parse :: parse_fn
  stringify :: stringify_fn
  removeClosedTabs :: bool
  origin :: "string option"
  onPollingCallback :: bool

text \<open>
  What the module and its window hold. \<open>tabs\<close> is the array \<open>tabUtils.tabs\<close>; its
  elements are \<open>Tab\<close> objects, which the program shares and updates in place, so the
  array holds addresses into \<open>objs\<close>, the \<open>Tab\<close> objects created so far.
  \<open>closed\<close> is the set of windows whose \<open>closed\<close> flag is true. \<open>heartBeat\<close> is the
  module variable (a timer handle, or \<open>null\<close> or \<open>undefined\<close>), \<open>intervals\<close> the
  interval timers of the window that are set.
\<close>

record parent_state =
  tabs :: "nat list"
  objs :: "tab list"
  tabUtils_config :: "parent option"
  heartBeat :: "nat option"
  intervals :: "nat list"
  next_timer :: nat
  closed :: "nat set"
  window_name :: string
  newlyTabOpened :: "newly_opened option"
  message_listener :: bool
  polling_callbacks :: nat

text \<open>The module as loaded: \<open>tabs: []\<close>, \<open>config: {}\<close>, \<open>heartBeat\<close> undefined.\<close>

definition initial_state :: parent_state where
  "initial_state =
     \<lparr>tabs = [], objs = [], tabUtils_config = None, heartBeat = None, intervals = [],
      next_timer = 1, closed = {}, window_name = [], newlyTabOpened = None,
      message_listener = False, polling_callbacks = 0\<rparr>"

definition set_status :: "nat \<Rightarrow> string \<Rightarrow> parent_state \<Rightarrow> parent_state" where
  "set_status a v s = s\<lparr>objs := (objs s)[a := (objs s ! a)\<lparr>tab_status := v\<rparr>]\<rparr>"

text \<open>
  \<open>ref.close()\<close> on a window that a script opened: from then on its \<open>closed\<close> flag is
  true. A window that the user closes does the same; no window opens again.
\<close>

definition window_close :: "nat \<Rightarrow> parent_state \<Rightarrow> parent_state" where
  "window_close h s = s\<lparr>closed := insert h (closed s)\<rparr>"

text \<open>\<open>tabUtils._remove\<close>.\<close>

definition tabUtils_remove :: "tab \<Rightarrow> parent_state \<Rightarrow> parent_state" where
  "tabUtils_remove t s =
     (case searchByKeyName (tabs s) (\<lambda>a. tab_id (objs s ! a)) (tab_id t) (Some INDEX) of
        RIndex index \<Rightarrow> s\<lparr>tabs := splice1 index (tabs s)\<rparr>
      | _ \<Rightarrow> s)"

text \<open>\<open>tabUtils.addNew\<close>, with the address of the \<open>Tab\<close> object.\<close>

definition addNew :: "nat \<Rightarrow> parent_state \<Rightarrow> parent_state" where
  "addNew a s = s\<lparr>tabs := tabs s @ [a]\<rparr>"

definition getOpened :: "parent_state \<Rightarrow> nat list" where
  "getOpened s = filter (\<lambda>a. tab_status (objs s ! a) = OPEN) (tabs s)"

definition getClosed :: "parent_state \<Rightarrow> nat list" where
  "getClosed s = filter (\<lambda>a. tab_status (objs s ! a) = CLOSE) (tabs s)"

definition getAll :: "parent_state \<Rightarrow> nat list" where
  "getAll s = tabs s"

text \<open>\<open>tabUtils.closeTab\<close>.\<close>

definition closeTab :: "idval \<Rightarrow> parent_state \<Rightarrow> parent_state" where
  "closeTab i s =
     (case searchByKeyName (tabs s) (\<lambda>a. tab_id (objs s ! a)) i None of
        RObject (Some a) \<Rightarrow>
          (case tab_ref (objs s ! a) of
             Some h \<Rightarrow> set_status a CLOSE (window_close h s)
           | None \<Rightarrow> s)
      | _ \<Rightarrow> s)"

text \<open>\<open>tabUtils.closeAll\<close>: the loop does not change the array, so it is a fold.\<close>

definition closeAll_step :: "parent_state \<Rightarrow> nat \<Rightarrow> parent_state" where
  "closeAll_step s a =
     (case tab_ref (objs s ! a) of
        Some h \<Rightarrow> set_status a CLOSE (window_close h s)
      | None \<Rightarrow> s)"

definition closeAll :: "parent_state \<Rightarrow> parent_state" where
  "closeAll s = foldl closeAll_step s (tabs s)"

text \<open>
  \<open>Tab.create\<close>, after the constructor of \<open>Tab\<close> (which names the window
  \<open>'PARENT_TAB'\<close> when it has no name). \<open>uuid\<close> is the string of \<open>UUID.generate()\<close>
  and \<open>opened\<close> the result of \<open>window.open\<close>. Disabling the opener elements is a
  matter of the document and left out. The result is the address of the new object.
\<close>

definition Tab_create ::
  "tab_config \<Rightarrow> string \<Rightarrow> nat option \<Rightarrow> parent_state \<Rightarrow> nat \<times> parent_state" where
  "Tab_create config uuid opened s =
     (let this = \<lparr>tab_id = (if uuid \<noteq> [] then IdStr uuid else IdNum (int (length (tabs s)) + 1)),
                  tab_status = ''open'',
                  tab_ref = opened,
                  tab_url = cfg_url config,
                  tab_name = cfg_name config,
                  tab_windowName = cfg_windowName config,
                  tab_windowFeatures = cfg_windowFeatures config\<rparr>;
          a = length (objs s);
          s1 = s\<lparr>window_name := (if window_name s \<noteq> [] then window_name s else ''PARENT_TAB''),
                 objs := objs s @ [this],
                 newlyTabOpened :=
                   Some \<lparr>nt_id = tab_id this,
                         nt_name = (if truthy (tab_name this) then tab_name this
                                    else tab_windowName this),
                         nt_ref = tab_ref this\<rparr>\<rparr>
      in (a, addNew a s1))"

text \<open>\<open>Parent.watchStatus\<close>, called with the \<open>Tab\<close> object at address \<open>a\<close>.\<close>

definition watchStatus :: "nat \<Rightarrow> parent_state \<Rightarrow> parent_state" where
  "watchStatus a s =
     (case tab_ref (objs s ! a) of
        None \<Rightarrow> s
      | Some h \<Rightarrow>
          (let newStatus = (if h \<in> closed s then CLOSE else OPEN);
               oldStatus = tab_status (objs s ! a)
           in if newStatus = oldStatus then s
              else if oldStatus = OPEN \<and> newStatus = CLOSE then tabUtils_remove (objs s ! a) s
              else s))"

text \<open>
  One round of the loop of \<open>Parent.addInterval\<close>. \<open>watchStatus\<close> may have taken an
  element out of the array, so \<open>tabs[i]\<close> is read again and may be \<open>undefined\<close>.
\<close>

definition poll_body :: "parent \<Rightarrow> nat \<Rightarrow> parent_state \<Rightarrow> parent_state" where
  "poll_body this i s =
     (let s1 = (if removeClosedTabs this then watchStatus (tabs s ! i) s else s)
      in if i < length (tabs s1)
         then (let a = tabs s1 ! i
               in case tab_ref (objs s1 ! a) of
                    Some h \<Rightarrow> set_status a (if h \<in> closed s1 then CLOSE else OPEN) s1
                  | None \<Rightarrow> s1)
         else s1)"

function poll_loop :: "parent \<Rightarrow> nat \<Rightarrow> parent_state \<Rightarrow> parent_state" where
  "poll_loop this i s =
     (if i < length (tabs s) then poll_loop this (Suc i) (poll_body this i s) else s)"
  by pat_completeness auto
termination
proof (relation "measure (\<lambda>(this, i, s). length (tabs s) - i)")
  show "wf (measure (\<lambda>(this, i, s). length (tabs s) - i))"
    by simp
next
  fix this :: parent and i :: nat and s :: parent_state
  assume less: "i < length (tabs s)"
  have splice: "length (splice1 k xs) \<le> length xs" for k and xs :: "nat list"
    by (auto simp add: splice1_def Let_def min_def max_def)
  have remove: "length (tabs (tabUtils_remove t s)) \<le> length (tabs s)" for t
    by (simp add: tabUtils_remove_def searchByKeyName_def Let_def splice
        split: search_result.splits option.splits returnPreferenceEnum.splits)
  have watch: "length (tabs (watchStatus a s)) \<le> length (tabs s)" for a
    by (simp add: watchStatus_def Let_def remove split: option.splits)
  have "length (tabs (poll_body this i s)) \<le> length (tabs s)"
    using watch [of "tabs s ! i"]
    by (simp add: poll_body_def Let_def set_status_def split: option.splits)
  with less show "((this, Suc i, poll_body this i s), (this, i, s))
      \<in> measure (\<lambda>(this, i, s). length (tabs s) - i)"
    by simp
qed

declare poll_loop.simps [simp del]

text \<open>\<open>window.clearInterval(heartBeat)\<close>.\<close>

definition clearInterval :: "nat option \<Rightarrow> parent_state \<Rightarrow> parent_state" where
  "clearInterval h s =
     (case h of None \<Rightarrow> s | Some k \<Rightarrow> s\<lparr>intervals := removeAll k (intervals s)\<rparr>)"

text \<open>\<open>Parent.addInterval\<close>, the function the interval timer calls.\<close>

definition addInterval :: "parent \<Rightarrow> parent_state \<Rightarrow> parent_state" where
  "addInterval this s =
     (if getOpened s = [] then (clearInterval (heartBeat s) s)\<lparr>heartBeat := None\<rparr>
      else (let s1 = poll_loop this 0 s
            in if onPollingCallback this
               then s1\<lparr>polling_callbacks := Suc (polling_callbacks s1)\<rparr>
               else s1))"

text \<open>\<open>Parent.startPollingTabs\<close>: \<open>setInterval\<close> returns a new handle, a positive number.\<close>

definition startPollingTabs :: "parent \<Rightarrow> parent_state \<Rightarrow> parent_state" where
  "startPollingTabs this s =
     s\<lparr>heartBeat := Some (next_timer s),
       intervals := next_timer s # intervals s,
       next_timer := Suc (next_timer s)\<rparr>"

text \<open>
  \<open>Parent.openNewTab\<close>. The configuration is \<open>None\<close> when the argument is missing
  or falsy. The result is the error thrown or the address of the new \<open>Tab\<close>, and the
  state the call leaves.
\<close>

definition openNewTab ::
  "parent \<Rightarrow> tab_config option \<Rightarrow> random_ints \<Rightarrow> nat option \<Rightarrow> parent_state
     \<Rightarrow> (error + nat) \<times> parent_state" where
  "openNewTab this config r opened s =
     (case config of
        None \<Rightarrow> (Inl CONFIG_REQUIRED, s)
      | Some c \<Rightarrow>
          if \<not> truthy (cfg_url c) then (Inl URL_REQUIRED, s)
          else (let (a, s1) = Tab_create c (UUID_generate r) opened s;
                    s2 = (if heartBeat s1 = None \<or> heartBeat s1 = Some 0
                          then startPollingTabs this s1 else s1)
                in (Inr a, s2)))"

text \<open>
  \<open>new Parent(config)\<close>. \<open>JSON_parse\<close> and \<open>JSON_stringify\<close> are the functions of
  the platform, the defaults of the serializer. \<open>init\<close> is \<open>addEventListeners\<close>: it
  registers \<open>PostMessageListener.onNewTab\<close> for the messages of the window. The
  listeners of the two custom events and the before-unload handler touch neither the
  registry nor the timer and are left out.
\<close>

definition Parent_init :: "parent_state \<Rightarrow> parent_state" where
  "Parent_init s = s\<lparr>message_listener := True\<rparr>"

definition Parent_constructor ::
  "parse_fn \<Rightarrow> stringify_fn \<Rightarrow> parent_options option \<Rightarrow> parent_state \<Rightarrow> parent \<times> parent_state" where
  "Parent_constructor JSON_parse JSON_stringify config s =
     (let c = (case config of
                 Some c \<Rightarrow> c
               | None \<Rightarrow> \<lparr>opt_heartBeatInterval = None, opt_shouldInitImmediately = None,
                          opt_parse = None, opt_stringify = None, opt_removeClosedTabs = False,
                          opt_origin = None, opt_onPollingCallback = False\<rparr>);
          this = \<lparr>heartBeatInterval =
                    (case opt_heartBeatInterval c of None \<Rightarrow> 500 | Some n \<Rightarrow> n),
                  shouldInitImmediately =
                    (case opt_shouldInitImmediately c of None \<Rightarrow> True | Some b \<Rightarrow> b),
                  parse = (case opt_parse c of None \<Rightarrow> JSON_parse | Some f \<Rightarrow> f),
                  stringify = (case opt_stringify c of None \<Rightarrow> JSON_stringify | Some f \<Rightarrow> f),
                  removeClosedTabs = opt_removeClosedTabs c,
                  origin = opt_origin c,
                  onPollingCallback = opt_onPollingCallback c\<rparr>;
          s1 = s\<lparr>tabs := [], tabUtils_config := Some this\<rparr>
      in (this, if shouldInitImmediately this then Parent_init s1 else s1))"

definition getAllTabs :: "parent_state \<Rightarrow> nat list" where
  "getAllTabs s = getAll s"

definition getOpenedTabs :: "parent_state \<Rightarrow> nat list" where
  "getOpenedTabs s = getOpened s"

definition getClosedTabs :: "parent_state \<Rightarrow> nat list" where
  "getClosedTabs s = getClosed s"

section \<open>Runs of the parent\<close>

text \<open>
  What can happen to the module state, one call at a time: the public methods of a
  \<open>Parent\<close> instance (any instance: the registry is the module's), the call of
  \<open>addInterval\<close> by the interval timer, and a window being closed by its user. The
  argument of \<open>watchStatus\<close> is a \<open>Tab\<close> object, given by its address; the method
  returns at once when its argument is falsy. \<open>Remove\<close> is \<open>tabUtils._remove\<close> with a
  \<open>Tab\<close> object, as \<open>watchStatus\<close> calls it.
\<close>

datatype parent_op =
    NewParent parse_fn stringify_fn "parent_options option"
  | OpenNewTab parent "tab_config option" random_ints "nat option"
  | CloseTab idval
  | CloseAllTabs
  | Tick parent
  | WatchStatus nat
  | Remove nat
  | WindowClosed nat

fun step :: "parent_state \<Rightarrow> parent_op \<Rightarrow> parent_state" where
  "step s (NewParent JSON_parse JSON_stringify config) =
     snd (Parent_constructor JSON_parse JSON_stringify config s)"
| "step s (OpenNewTab this config r opened) = snd (openNewTab this config r opened s)"
| "step s (CloseTab i) = closeTab i s"
| "step s CloseAllTabs = closeAll s"
| "step s (Tick this) = addInterval this s"
| "step s (WatchStatus a) = (if a < length (objs s) then watchStatus a s else s)"
| "step s (Remove a) = (if a < length (objs s) then tabUtils_remove (objs s ! a) s else s)"
| "step s (WindowClosed h) = window_close h s"

definition run :: "parent_state \<Rightarrow> parent_op list \<Rightarrow> parent_state" where
  "run s ops = foldl step s ops"

section \<open>The child\<close>

text \<open>
  The argument of \<open>new Child(config)\<close> and \<open>this.config\<close> after the constructor has
  filled in the defaults. The callbacks are the user's; the model records whether one is
  given, and every call of one in \<open>callbacks\<close>. A callback is taken to return and to
  leave the child as it is.
\<close>

record child_options =
  copt_handshakeExpiryLimit :: "nat option"
  copt_shouldInitImmediately :: "bool option"
  copt_parse :: "parse_fn option"
  copt_stringify :: "stringify_fn option"
  copt_origin :: "string option"
  copt_isSiteInsideFrame :: jsval
  copt_onParentDisconnect :: bool
  copt_onInitialize :: bool
  copt_onParentCommunication :: bool
  copt_onHandShakeExpiry :: bool
  copt_onReady :: bool

record child_config =
  handshakeExpiryLimit :: nat
  config_shouldInitImmediately :: bool
  config_parse :: parse_fn
  config_stringify :: stringify_fn
  config_origin :: "string option"
  isSiteInsideFrame :: jsval
  onParentDisconnect :: bool
  onInitialize :: bool
  onParentCommunication :: bool
  onHandShakeExpiry :: bool
  onReady :: bool

datatype callback =
  ParentDisconnect | Initialize | ParentCommunication jsval | HandShakeExpiry | Ready

text \<open>
  The window of the child as the constructor finds it: its name, whether it has a
  \<open>sessionStorage\<close>, what the storage holds, and whether \<open>window.top.opener\<close> is
  there.
\<close>

record child_window =
  w_name :: string
  w_has_sessionStorage :: bool
  w_sessionStorage :: "string \<Rightarrow> string option"
  w_opener :: bool

text \<open>
  A \<open>Child\<close> instance with its window. \<open>timeout\<close> is \<open>this.timeout\<close>, a timer handle
  once \<open>init\<close> has run; \<open>timeouts\<close> are the timers of the window that are pending.
  \<open>listeners\<close> are the functions registered for the \<open>message\<close> event; a function
  object is named by a number, and every evaluation of an arrow function makes a new one.
  \<open>posted\<close> are the messages posted to the opener, each with its target origin.
\<close>

record child =
  sessionStorageKey :: string
  tabName :: jsval
  tabId :: jsval
  tabParentName :: jsval
  config :: child_config
  isSessionStorageSupported :: bool
  timeout :: "nat option"
  has_sessionStorage :: bool
  sessionStorage :: "string \<Rightarrow> string option"
  opener :: bool
  posted :: "(string \<times> string) list"
  timeouts :: "nat list"
  next_handle :: nat
  listeners :: "nat list"
  next_function :: nat
  onbeforeunload_set :: bool
  callbacks :: "callback list"

record message =
  data :: jsval
  msg_origin :: string

definition call :: "callback \<Rightarrow> child \<Rightarrow> child" where
  "call cb this = this\<lparr>callbacks := callbacks this @ [cb]\<rparr>"

text \<open>\<open>Child._setData\<close>: \<open>setItem\<close> stores the string of its argument.\<close>

definition setData :: "jsval \<Rightarrow> child \<Rightarrow> child" where
  "setData dataReceived this =
     (if \<not> isSessionStorageSupported this then this
      else this\<lparr>sessionStorage := (sessionStorage this)
             (sessionStorageKey this \<mapsto>
                (case dataReceived of JStr p \<Rightarrow> p | _ \<Rightarrow> ''undefined''))\<rparr>)"

text \<open>\<open>Child._getData\<close>, where the storage is supported: a string or \<open>null\<close>.\<close>

definition getData :: "child \<Rightarrow> jsval" where
  "getData this =
     (case sessionStorage this (sessionStorageKey this) of None \<Rightarrow> JNull | Some v \<Rightarrow> JStr v)"

text \<open>\<open>Child._parseData\<close>.\<close>

definition parseData :: "jsval \<Rightarrow> child \<Rightarrow> error option \<times> child" where
  "parseData dataReceived this =
     (case config_parse (config this) dataReceived of
        None \<Rightarrow> (Some INVALID_DATA, this)
      | Some actualData \<Rightarrow>
          (None, this\<lparr>tabId := and_prop actualData ''id'',
                      tabName := and_prop actualData ''name'',
                      tabParentName := and_prop actualData ''parentName''\<rparr>))"

text \<open>\<open>Child._restoreData\<close>.\<close>

definition restoreData :: "child \<Rightarrow> error option \<times> child" where
  "restoreData this =
     (if \<not> isSessionStorageSupported this then (None, this)
      else parseData (getData this) this)"

text \<open>\<open>this.config.origin || '*'\<close>.\<close>

definition targetOrigin :: "child \<Rightarrow> string" where
  "targetOrigin this =
     (case config_origin (config this) of
        None \<Rightarrow> ''*''
      | Some cfo \<Rightarrow> if cfo \<noteq> [] then cfo else ''*'')"

text \<open>\<open>Child.sendMessageToParent\<close>; \<open>None\<close> for a prefix type that is not given.\<close>

definition sendMessageToParent :: "jsval \<Rightarrow> string option \<Rightarrow> child \<Rightarrow> error option \<times> child" where
  "sendMessageToParent msg prefixType this =
     (let type = (case prefixType of None \<Rightarrow> CUSTOM | Some t \<Rightarrow> if t \<noteq> [] then t else CUSTOM)
      in case encode (config_stringify (config this)) type msg of
           None \<Rightarrow> (Some SerializerError, this)
         | Some m \<Rightarrow>
             if opener this
             then (None, this\<lparr>posted := posted this @ [(m, targetOrigin this)]\<rparr>)
             else (None, this))"

text \<open>\<open>Child.getTabInfo\<close>.\<close>

definition getTabInfo :: "child \<Rightarrow> jsval" where
  "getTabInfo this =
     JObj [(''id'', tabId this), (''name'', tabName this), (''parentName'', tabParentName this),
           (''isSiteInsideFrame'', isSiteInsideFrame (config this))]"

text \<open>\<open>window.clearTimeout(this.timeout)\<close>.\<close>

definition clearTimeout :: "nat option \<Rightarrow> child \<Rightarrow> child" where
  "clearTimeout h this =
     (case h of None \<Rightarrow> this | Some k \<Rightarrow> this\<lparr>timeouts := removeAll k (timeouts this)\<rparr>)"

text \<open>
  \<open>window.removeEventListener('message', evt => this.onCommunication(evt))\<close>: the
  arrow function is a new function object, and the listener that goes is the one that is
  this very object.
\<close>

definition removeEventListener_arrow :: "child \<Rightarrow> child" where
  "removeEventListener_arrow this =
     (let f = next_function this
      in this\<lparr>listeners := removeAll f (listeners this), next_function := Suc f\<rparr>)"

text \<open>\<open>window.addEventListener('message', evt => this.onCommunication(evt))\<close>.\<close>

definition addEventListener_arrow :: "child \<Rightarrow> child" where
  "addEventListener_arrow this =
     (let f = next_function this
      in this\<lparr>listeners := (if f \<in> set (listeners this) then listeners this
                              else listeners this @ [f]),
              next_function := Suc f\<rparr>)"

text \<open>
  What \<open>onCommunication\<close> does on the name \<open>HANDSHAKE_WITH_PARENT\<close>. An exception
  ends the handler there, with the changes made so far.
\<close>

definition onHandshakeWithParent :: "string \<Rightarrow> child \<Rightarrow> error option \<times> child" where
  "onHandshakeWithParent d this =
     (let dataReceived = split_1 d HANDSHAKE_WITH_PARENT;
          s1 = setData dataReceived this
      in case parseData dataReceived s1 of
           (Some e, s2) \<Rightarrow> (Some e, s2)
         | (None, s2) \<Rightarrow>
             (let msg = JObj [(''id'', tabId s2),
                              (''isSiteInsideFrame'', isSiteInsideFrame (config s2))]
              in case sendMessageToParent msg (Some HANDSHAKE) s2 of
                   (Some e, s3) \<Rightarrow> (Some e, s3)
                 | (None, s3) \<Rightarrow>
                     (None, if onInitialize (config s3) then call Initialize s3 else s3)))"

text \<open>What \<open>onCommunication\<close> does on the name \<open>PARENT_COMMUNICATED\<close>.\<close>

definition onParentCommunicated :: "string \<Rightarrow> child \<Rightarrow> error option \<times> child" where
  "onParentCommunicated d this =
     (case decode (config_parse (config this)) d PARENT_COMMUNICATED of
        None \<Rightarrow> (Some INVALID_JSON, this)
      | Some dataReceived \<Rightarrow>
          (None, if onParentCommunication (config this)
                 then call (ParentCommunication dataReceived) this else this))"

text \<open>
  The two guards of \<open>Child.onCommunication\<close>: the data is a string that is not empty,
  and the origin is the configured one when one is configured.
\<close>

definition accepted :: "child \<Rightarrow> message \<Rightarrow> bool" where
  "accepted this m \<longleftrightarrow>
     (case data m of JStr d \<Rightarrow> d \<noteq> [] | _ \<Rightarrow> False) \<and>
     (case config_origin (config this) of
        None \<Rightarrow> True
      | Some cfo \<Rightarrow> cfo = [] \<or> cfo = msg_origin m)"

text \<open>\<open>Child.onCommunication\<close>: the exception thrown, if any, and the state it leaves.\<close>

definition onCommunication :: "message \<Rightarrow> child \<Rightarrow> error option \<times> child" where
  "onCommunication m this =
     (case data m of
        JStr d \<Rightarrow>
          if d = [] then (None, this)
          else if (case config_origin (config this) of
                     None \<Rightarrow> False
                   | Some cfo \<Rightarrow> cfo \<noteq> [] \<and> cfo \<noteq> msg_origin m)
          then (None, this)
          else
            (let s1 = clearTimeout (timeout this) this;
                 s2 = (if - 1 < js_indexOf d PARENT_DISCONNECTED
                       then removeEventListener_arrow
                              (if onParentDisconnect (config s1) then call ParentDisconnect s1
                               else s1)
                       else s1);
                 (e3, s3) = (if - 1 < js_indexOf d HANDSHAKE_WITH_PARENT
                             then onHandshakeWithParent d s2 else (None, s2))
             in case e3 of
                  Some e \<Rightarrow> (Some e, s3)
                | None \<Rightarrow>
                    if - 1 < js_indexOf d PARENT_COMMUNICATED then onParentCommunicated d s3
                    else (None, s3))
      | _ \<Rightarrow> (None, this))"

text \<open>\<open>Child.addListeners\<close>.\<close>

definition addListeners :: "child \<Rightarrow> child" where
  "addListeners this =
     addEventListener_arrow (removeEventListener_arrow (this\<lparr>onbeforeunload_set := True\<rparr>))"

text \<open>The before-unload hook that \<open>addListeners\<close> installs.\<close>

definition onbeforeunload :: "child \<Rightarrow> error option \<times> child" where
  "onbeforeunload this =
     sendMessageToParent
       (JObj [(''id'', tabId this), (''isSiteInsideFrame'', isSiteInsideFrame (config this))])
       (Some ON_BEFORE_UNLOAD) this"

text \<open>\<open>Child.setHandshakeExpiry\<close>: a new timer; the result is the state and the handle.\<close>

definition setHandshakeExpiry :: "child \<Rightarrow> nat \<times> child" where
  "setHandshakeExpiry this =
     (next_handle this,
      this\<lparr>timeouts := timeouts this @ [next_handle this],
           next_handle := Suc (next_handle this)\<rparr>)"

text \<open>The function the expiry timer calls when it fires.\<close>

definition handshake_expired :: "nat \<Rightarrow> child \<Rightarrow> child" where
  "handshake_expired h this =
     (if h \<in> set (timeouts this)
      then (let s1 = this\<lparr>timeouts := removeAll h (timeouts this)\<rparr>
            in if onHandShakeExpiry (config s1) then call HandShakeExpiry s1 else s1)
      else this)"

text \<open>\<open>Child.init\<close>.\<close>

definition Child_init :: "child \<Rightarrow> error option \<times> child" where
  "Child_init this =
     (let s1 = addListeners (this\<lparr>isSessionStorageSupported := has_sessionStorage this\<rparr>)
      in case restoreData s1 of
           (Some e, s2) \<Rightarrow> (Some e, s2)
         | (None, s2) \<Rightarrow>
             (case sendMessageToParent (getTabInfo s2) (Some LOADED) s2 of
                (Some e, s3) \<Rightarrow> (Some e, s3)
              | (None, s3) \<Rightarrow>
                  (let (h, s4) = setHandshakeExpiry s3;
                       s5 = s4\<lparr>timeout := Some h\<rparr>
                   in (None, if onReady (config s5) then call Ready s5 else s5))))"

text \<open>
  \<open>new Child(config)\<close> in the window \<open>w\<close>, with the serializer of the platform for the
  defaults.
\<close>

definition Child_constructor ::
  "parse_fn \<Rightarrow> stringify_fn \<Rightarrow> child_options option \<Rightarrow> child_window \<Rightarrow> error option \<times> child" where
  "Child_constructor JSON_parse JSON_stringify options w =
     (let c = (case options of
                 Some c \<Rightarrow> c
               | None \<Rightarrow> \<lparr>copt_handshakeExpiryLimit = None, copt_shouldInitImmediately = None,
                          copt_parse = None, copt_stringify = None, copt_origin = None,
                          copt_isSiteInsideFrame = JUndefined, copt_onParentDisconnect = False,
                          copt_onInitialize = False, copt_onParentCommunication = False,
                          copt_onHandShakeExpiry = False, copt_onReady = False\<rparr>);
          cfg = \<lparr>handshakeExpiryLimit =
                   (case copt_handshakeExpiryLimit c of None \<Rightarrow> 5000 | Some n \<Rightarrow> n),
                 config_shouldInitImmediately =
                   (case copt_shouldInitImmediately c of None \<Rightarrow> True | Some b \<Rightarrow> b),
                 config_parse = (case copt_parse c of None \<Rightarrow> JSON_parse | Some f \<Rightarrow> f),
                 config_stringify =
                   (case copt_stringify c of None \<Rightarrow> JSON_stringify | Some f \<Rightarrow> f),
                 config_origin = copt_origin c,
                 isSiteInsideFrame = copt_isSiteInsideFrame c,
                 onParentDisconnect = copt_onParentDisconnect c,
                 onInitialize = copt_onInitialize c,
                 onParentCommunication = copt_onParentCommunication c,
                 onHandShakeExpiry = copt_onHandShakeExpiry c,
                 onReady = copt_onReady c\<rparr>;
          this = \<lparr>sessionStorageKey = ''__vwo_new_tab_info__'',
                  tabName = JStr (w_name w),
                  tabId = JNull,
                  tabParentName = JNull,
                  config = cfg,
                  isSessionStorageSupported = False,
                  timeout = None,
                  has_sessionStorage = w_has_sessionStorage w,
                  sessionStorage = w_sessionStorage w,
                  opener = w_opener w,
                  posted = [],
                  timeouts = [],
                  next_handle = 1,
                  listeners = [],
                  next_function = 0,
                  onbeforeunload_set = False,
                  callbacks = []\<rparr>
      in if config_shouldInitImmediately cfg then Child_init this else (None, this))"

text \<open>
  A transport message arrives at the window: every function registered for \<open>message\<close>
  is called with it, and each of them calls \<open>this.onCommunication\<close>. An exception in one
  listener is reported and does not keep the next from running.
\<close>

definition deliver_step :: "message \<Rightarrow> error list \<times> child \<Rightarrow> nat \<Rightarrow> error list \<times> child" where
  "deliver_step m acc f =
     (case onCommunication m (snd acc) of
        (None, s) \<Rightarrow> (fst acc, s)
      | (Some e, s) \<Rightarrow> (fst acc @ [e], s))"

definition deliver :: "message \<Rightarrow> child \<Rightarrow> error list \<times> child" where
  "deliver m this = foldl (deliver_step m) ([], this) (listeners this)"

text \<open>The test of the search loop: when the id \<open>x\<close> of a record matches the id looked for.\<close>

definition id_matches :: "idval \<Rightarrow> idval \<Rightarrow> bool" where
  "id_matches value x \<longleftrightarrow>
     \<not> isNaN value \<and> num_strict_eq (parseInt10 x) (parseInt10 value) \<or>
     isNaN value \<and> x = value"

section \<open>What holds of every registry\<close>

text \<open>
  \<open>registry_ok\<close>: the array holds addresses of \<open>Tab\<close> objects, and every \<open>Tab\<close>
  object has the status \<open>OPEN\<close>, or the status \<open>CLOSE\<close> and a window that is closed.
  \<open>advances s s'\<close>: the objects of \<open>s\<close> are still there in \<open>s'\<close>, and those with
  the status \<open>CLOSE\<close> have kept it.
\<close>

definition registry_ok :: "parent_state \<Rightarrow> bool" where
  "registry_ok s \<longleftrightarrow>
     (\<forall>a \<in> set (tabs s). a < length (objs s)) \<and>
     (\<forall>a < length (objs s).
        tab_status (objs s ! a) = OPEN \<or>
        tab_status (objs s ! a) = CLOSE \<and>
          (\<exists>h. tab_ref (objs s ! a) = Some h \<and> h \<in> closed s))"

definition advances :: "parent_state \<Rightarrow> parent_state \<Rightarrow> bool" where
  "advances s s' \<longleftrightarrow>
     length (objs s) \<le> length (objs s') \<and>
     (\<forall>a < length (objs s).
        tab_status (objs s ! a) = CLOSE \<longrightarrow> tab_status (objs s' ! a) = CLOSE)"

section \<open>Example inputs\<close>

definition example_parent :: parent where
  "example_parent = fst (Parent_constructor quote_parse quote_stringify None initial_state)"

definition example_random :: random_ints where
  "example_random = \<lparr>rand32 = 0, rand16 = 255, rand12 = 1, rand14 = 0, rand48 = 123456789\<rparr>"

definition example_config :: tab_config where
  "example_config = \<lparr>cfg_url = JStr ''https://x'', cfg_name = JUndefined,
     cfg_windowName = JUndefined, cfg_windowFeatures = JUndefined\<rparr>"

text \<open>Two tabs created in the module as loaded, with ids \<open>id-a\<close> and \<open>id-b\<close>.\<close>

definition two_tabs :: parent_state where
  "two_tabs =
     snd (Tab_create example_config ''id-b'' (Some 2)
       (snd (Tab_create example_config ''id-a'' (Some 1) initial_state)))"


definition one_closed_of_two :: "parent_op list" where
  "one_closed_of_two =
     [OpenNewTab example_parent (Some example_config) example_random (Some 7),
      OpenNewTab example_parent (Some example_config) example_random (Some 8),
      WindowClosed 7, Tick example_parent]"

text \<open>
  An injected serializer for the child of the examples: strings are quoted, an object is
  written with its id, and the parser knows the one payload of the acknowledgement.
\<close>

definition ack_payload :: string where
  "ack_payload = ''{id:abc,name:n,parentName:p}''"

definition ack_value :: jsval where
  "ack_value = JObj [(''id'', JStr ''abc''), (''name'', JStr ''n''), (''parentName'', JStr ''p'')]"

definition example_parse :: parse_fn where
  "example_parse v = (if v = JStr ack_payload then Some ack_value else quote_parse v)"

definition example_stringify :: stringify_fn where
  "example_stringify v =
     (case v of
        JStr s \<Rightarrow> quote_stringify v
      | _ \<Rightarrow> (case get_prop v ''id'' of JStr i \<Rightarrow> Text (''{id:'' @ i @ ''}'') | _ \<Rightarrow> Text ''{}''))"

text \<open>
  Children constructed with this serializer and every callback but \<open>onReady\<close>, in a
  window with session storage and an opener, without the storage, and without the opener.
\<close>

definition example_options :: child_options where
  "example_options =
     \<lparr>copt_handshakeExpiryLimit = None, copt_shouldInitImmediately = None,
      copt_parse = Some example_parse, copt_stringify = Some example_stringify,
      copt_origin = None, copt_isSiteInsideFrame = JUndefined, copt_onParentDisconnect = True,
      copt_onInitialize = True, copt_onParentCommunication = True,
      copt_onHandShakeExpiry = True, copt_onReady = False\<rparr>"

definition example_window :: child_window where
  "example_window =
     \<lparr>w_name = ''child'', w_has_sessionStorage = True, w_sessionStorage = Map.empty,
      w_opener = True\<rparr>"

definition example_child :: child where
  "example_child = snd (Child_constructor quote_parse quote_stringify (Some example_options)
     example_window)"




definition disconnect_message :: message where
  "disconnect_message =
     \<lparr>data = JStr (PARENT_COMMUNICATED @ [CHR 0x22] @ PARENT_DISCONNECTED @ [CHR 0x22]),
      msg_origin = ''https://x''\<rparr>"

definition hello_message :: message where
  "hello_message =
     \<lparr>data = JStr (PARENT_COMMUNICATED @ [CHR 0x22] @ ''hello'' @ [CHR 0x22]),
      msg_origin = ''https://x''\<rparr>"

text \<open>A message whose data is the empty string.\<close>

definition empty_message :: message where
  "empty_message = \<lparr>data = JStr [], msg_origin = ''https://x''\<rparr>"

text \<open>A parent that removes closed tabs.\<close>

definition removing_parent :: parent where
  "removing_parent = example_parent\<lparr>removeClosedTabs := True\<rparr>"

section \<open>Properties of the registry\<close>

lemma two_tabs_tabs: "tabs two_tabs = [0, 1]"
  by (simp add: two_tabs_def Tab_create_def addNew_def initial_state_def Let_def)

lemma search_loop_none:
  "search_loop key v xs i = - 1 \<longleftrightarrow> (\<forall>x \<in> set xs. \<not> id_matches v (key x))"
  by (induction xs arbitrary: i) (auto simp: id_matches_def)

lemma search_loop_first:
  assumes "search_loop key v xs i \<noteq> - 1"
  shows "\<exists>j < length xs. search_loop key v xs i = int (i + j) \<and> id_matches v (key (xs ! j)) \<and>
           (\<forall>k < j. \<not> id_matches v (key (xs ! k)))"
  using assms
proof (induction xs arbitrary: i)
  case Nil
  then show ?case by simp
next
  case (Cons x xs)
  show ?case
  proof (cases "id_matches v (key x)")
    case True
    then have "search_loop key v (x # xs) i = int (i + 0)"
      by (auto simp: id_matches_def)
    with True show ?thesis by (intro exI [of _ 0]) simp
  next
    case False
    then have eq: "search_loop key v (x # xs) i = search_loop key v xs (Suc i)"
      by (auto simp: id_matches_def)
    with Cons.prems have "search_loop key v xs (Suc i) \<noteq> - 1" by simp
    from Cons.IH [OF this] obtain j where j: "j < length xs"
      "search_loop key v xs (Suc i) = int (Suc i + j)" "id_matches v (key (xs ! j))"
      "\<forall>k < j. \<not> id_matches v (key (xs ! k))" by blast
    have "\<forall>k < Suc j. \<not> id_matches v (key ((x # xs) ! k))"
      using False j(4) by (auto simp: nth_Cons split: nat.splits)
    with j eq show ?thesis by (intro exI [of _ "Suc j"]) simp
  qed
qed

lemma splice1_minus_one: "splice1 (- 1) xs = butlast xs"
  by (cases "xs = []") (simp_all add: splice1_def Let_def butlast_conv_take nat_diff_distrib')

lemma splice1_index: "j < length xs \<Longrightarrow> splice1 (int j) xs = take j xs @ drop (Suc j) xs"
  by (simp add: splice1_def Let_def min_def nat_add_distrib)

text \<open>
  \<open>tabUtils._remove\<close> in general: it deletes the first record whose id matches the id
  of its argument, and the last record of the registry when no id matches.
\<close>

lemma remove_first_match:
  assumes "\<exists>a \<in> set (tabs s). id_matches (tab_id t) (tab_id (objs s ! a))"
  shows "\<exists>j < length (tabs s).
           id_matches (tab_id t) (tab_id (objs s ! (tabs s ! j))) \<and>
           (\<forall>k < j. \<not> id_matches (tab_id t) (tab_id (objs s ! (tabs s ! k)))) \<and>
           tabs (tabUtils_remove t s) = take j (tabs s) @ drop (Suc j) (tabs s)"
proof -
  from assms have "search_loop (\<lambda>a. tab_id (objs s ! a)) (tab_id t) (tabs s) 0 \<noteq> - 1"
    by (simp add: search_loop_none)
  from search_loop_first [OF this] obtain j where j: "j < length (tabs s)"
    "search_loop (\<lambda>a. tab_id (objs s ! a)) (tab_id t) (tabs s) 0 = int j"
    "id_matches (tab_id t) (tab_id (objs s ! (tabs s ! j)))"
    "\<forall>k < j. \<not> id_matches (tab_id t) (tab_id (objs s ! (tabs s ! k)))"
    by auto
  from j(1,2) have "tabs (tabUtils_remove t s) = take j (tabs s) @ drop (Suc j) (tabs s)"
    by (simp add: tabUtils_remove_def searchByKeyName_def Let_def splice1_index)
  with j show ?thesis by blast
qed

lemma remove_no_match:
  assumes "\<forall>a \<in> set (tabs s). \<not> id_matches (tab_id t) (tab_id (objs s ! a))"
  shows "tabs (tabUtils_remove t s) = butlast (tabs s)"
proof -
  from assms have "search_loop (\<lambda>a. tab_id (objs s ! a)) (tab_id t) (tabs s) 0 = - 1"
    by (simp add: search_loop_none)
  then show ?thesis
    by (simp add: tabUtils_remove_def searchByKeyName_def Let_def splice1_minus_one)
qed

text \<open>
  C3. \<open>tabUtils._remove\<close> with a tab whose id no record has: the search returns
  \<open>-1\<close> and \<open>splice(-1, 1)\<close> takes the last record out. With the records \<open>id-a\<close>
  and \<open>id-b\<close> registered, removing \<open>id-c\<close> leaves \<open>id-a\<close> alone, where the claim
  says the registry is unchanged. The public methods reach this: with closed tabs being
  removed, a tick takes the closed tab \<open>id-a\<close> out, and \<open>watchStatus\<close> called once
  more with that tab takes out \<open>id-b\<close>, whose window is open.
\<close>

theorem remove_absent_id_drops_last:
  "tabs two_tabs = [0, 1] \<and>
   tabs (tabUtils_remove ((objs two_tabs ! 0)\<lparr>tab_id := IdStr ''id-c''\<rparr>) two_tabs) = [0] \<and>
   tabs (addInterval removing_parent (window_close 1 two_tabs)) = [1] \<and>
   tabs (watchStatus 0 (addInterval removing_parent (window_close 1 two_tabs))) = []"
  by code_simp

text \<open>
  C10. Constructing a \<open>Parent\<close> resets the module's tab list: whatever the registry
  held, \<open>getAllTabs()\<close> returns the empty list right after the constructor.
\<close>

theorem constructor_wipes_registry:
  "getAllTabs (snd (Parent_constructor JSON_parse JSON_stringify options s)) = []"
  by (simp add: getAllTabs_def getAll_def Parent_constructor_def Parent_init_def Let_def)

section \<open>Properties of the codec and the framing\<close>

lemma indexOf_from_neg: "indexOf_from t s k = - 1 \<longleftrightarrow> (\<forall>a b. s \<noteq> a @ t @ b)"
proof (induction s arbitrary: k)
  case Nil
  then show ?case by auto
next
  case (Cons c cs)
  show ?case
  proof (cases "startsWith (c # cs) t")
    case True
    then have "c # cs = [] @ t @ drop (length t) (c # cs)"
      unfolding startsWith_def by (metis append_Nil append_take_drop_id)
    with True show ?thesis by (auto simp del: append.simps)
  next
    case False
    have "(\<forall>a b. c # cs \<noteq> a @ t @ b) \<longleftrightarrow> (\<forall>a b. cs \<noteq> a @ t @ b)"
    proof
      assume h: "\<forall>a b. c # cs \<noteq> a @ t @ b"
      show "\<forall>a b. cs \<noteq> a @ t @ b"
      proof (intro allI notI)
        fix a b assume "cs = a @ t @ b"
        then have "c # cs = (c # a) @ t @ b" by simp
        with h show False by blast
      qed
    next
      assume h: "\<forall>a b. cs \<noteq> a @ t @ b"
      show "\<forall>a b. c # cs \<noteq> a @ t @ b"
      proof (intro allI notI)
        fix a b assume e: "c # cs = a @ t @ b"
        show False
        proof (cases a)
          case Nil
          with e have "startsWith (c # cs) t" by (simp add: startsWith_def)
          with False show False by simp
        next
          case (Cons x xs)
          with e have "cs = xs @ t @ b" by simp
          with h show False by blast
        qed
      qed
    qed
    with False Cons.IH[of "Suc k"] show ?thesis by simp
  qed
qed

lemma js_indexOf_neg: "js_indexOf s t = - 1 \<longleftrightarrow> (\<forall>a b. s \<noteq> a @ t @ b)"
  by (simp add: js_indexOf_def indexOf_from_neg)

lemma split_from_no_occurrence:
  "\<forall>a b. s \<noteq> a @ sep @ b \<Longrightarrow> split_from sep cur s = [cur @ s]"
proof (induction s arbitrary: cur)
  case Nil
  then show ?case by simp
next
  case (Cons c cs)
  have no_prefix: "\<not> startsWith (c # cs) sep"
  proof
    assume "startsWith (c # cs) sep"
    then have "c # cs = [] @ sep @ drop (length sep) (c # cs)"
      unfolding startsWith_def by (metis append_Nil append_take_drop_id)
    with Cons.prems show False by blast
  qed
  have rest: "\<forall>a b. cs \<noteq> a @ sep @ b"
  proof (intro allI notI)
    fix a b assume "cs = a @ sep @ b"
    then have "c # cs = (c # a) @ sep @ b" by simp
    with Cons.prems show False by blast
  qed
  from no_prefix Cons.IH [OF rest, of "cur @ [c]"] show ?case by simp
qed

lemma split_from_at_separator:
  assumes "sep \<noteq> []"
  shows "split_from sep cur (sep @ s) = cur # split_from sep [] s"
proof -
  from assms obtain c cs where sep: "sep = c # cs" by (cases sep) auto
  have "startsWith (sep @ s) sep" by (simp add: startsWith_def)
  moreover have "drop (length sep) (sep @ s) = s" by simp
  ultimately show ?thesis
    using assms split_from.simps(2) [of sep cur c "cs @ s"] by (simp add: sep)
qed

lemma split_1_encoded:
  assumes "T \<noteq> []" and "js_indexOf s T = - 1"
  shows "split_1 (T @ s) T = JStr s"
proof -
  from assms(2) have "\<forall>a b. s \<noteq> a @ T @ b" by (simp add: js_indexOf_neg)
  then have "split_from T [] s = [s]" using split_from_no_occurrence [of s T "[]"] by simp
  with assms(1) have "js_split (T @ s) T = [[], s]"
    by (simp add: js_split_def split_from_at_separator)
  then show ?thesis by (simp add: split_1_def)
qed

lemma split_from_nonempty: "split_from sep cur s \<noteq> []"
  by (induction sep cur s rule: split_from.induct) auto

lemma split_from_two_pieces:
  assumes "sep \<noteq> []"
  shows "2 \<le> length (split_from sep cur (a @ sep @ b))"
proof (induction a arbitrary: cur)
  case Nil
  have "0 < length (split_from sep [] b)"
    using split_from_nonempty [of sep "[]" b] by simp
  with assms show ?case by (simp add: split_from_at_separator Suc_le_eq)
next
  case (Cons c a)
  show ?case
  proof (cases "startsWith (c # a @ sep @ b) sep")
    case True
    have "0 < length (split_from sep [] (drop (length sep) (c # a @ sep @ b)))"
      using split_from_nonempty [of sep "[]"] by simp
    with True assms show ?thesis by (simp add: Suc_le_eq)
  next
    case False
    with Cons.IH [of "cur @ [c]"] show ?thesis by simp
  qed
qed

text \<open>
  Where the handler has found a name in the data, \<open>data.split(name)[1]\<close> is a string.
\<close>

lemma split_1_defined:
  assumes "- 1 < js_indexOf d T" and "T \<noteq> []"
  shows "\<exists>p. split_1 d T = JStr p"
proof -
  from assms(1) have "js_indexOf d T \<noteq> - 1" by simp
  then obtain a b where d: "d = a @ T @ b" by (auto simp: js_indexOf_neg)
  from assms(2) have "2 \<le> length (split_from T [] (a @ T @ b))"
    by (rule split_from_two_pieces)
  then obtain x y rest where "split_from T [] (a @ T @ b) = x # y # rest"
    by (metis One_nat_def Suc_1 Suc_le_length_iff)
  with assms(2) show ?thesis by (simp add: split_1_def js_split_def d)
qed

lemma event_names_nonempty: "T \<in> set event_names \<Longrightarrow> T \<noteq> []"
  by (auto simp: event_names_def event_name_defs)

text \<open>
  C1, as amended. For every event name \<open>T\<close> and every payload that the serializer
  supports (it serializes to a string \<open>s\<close> that parses back to the payload), if \<open>s\<close>
  does not contain \<open>T\<close>, then decoding the encoded envelope \<open>T + s\<close> yields the
  payload.
\<close>

theorem roundtrip_when_tag_not_in_payload:
  assumes "T \<in> set event_names"
    and "ser p = Text s" and "de (JStr s) = Some p"
    and "js_indexOf s T = - 1"
  shows "encode ser T p = Some (T @ s) \<and> decode de (T @ s) T = Some p"
proof -
  from assms(1) have "T \<noteq> []" by (rule event_names_nonempty)
  then have "split_1 (T @ s) T = JStr s" using assms(4) by (rule split_1_encoded)
  with assms(2,3) show ?thesis by (simp add: encode_def decode_def)
qed

lemma hi_no_tag: "js_indexOf [CHR 0x22, CHR ''h'', CHR ''i'', CHR 0x22] CUSTOM = - 1"
  by (simp add: js_indexOf_def startsWith_def CUSTOM_def)

theorem roundtrip_when_tag_not_in_payload_witness:
  "CUSTOM \<in> set event_names \<and>
   quote_stringify (JStr ''hi'') = Text [CHR 0x22, CHR ''h'', CHR ''i'', CHR 0x22] \<and>
   quote_parse (JStr [CHR 0x22, CHR ''h'', CHR ''i'', CHR 0x22]) = Some (JStr ''hi'') \<and>
   js_indexOf [CHR 0x22, CHR ''h'', CHR ''i'', CHR 0x22] CUSTOM = - 1 \<and>
   encode quote_stringify CUSTOM (JStr ''hi'')
     = Some (CUSTOM @ [CHR 0x22, CHR ''h'', CHR ''i'', CHR 0x22]) \<and>
   decode quote_parse (CUSTOM @ [CHR 0x22, CHR ''h'', CHR ''i'', CHR 0x22]) CUSTOM
     = Some (JStr ''hi'')"
proof -
  have a: "CUSTOM \<in> set event_names" by (simp add: event_names_def)
  have b: "quote_stringify (JStr ''hi'') = Text [CHR 0x22, CHR ''h'', CHR ''i'', CHR 0x22]"
    by (simp add: quote_stringify_def)
  have c: "quote_parse (JStr [CHR 0x22, CHR ''h'', CHR ''i'', CHR 0x22]) = Some (JStr ''hi'')"
    by (simp add: quote_parse_def)
  from roundtrip_when_tag_not_in_payload
    [of CUSTOM quote_stringify "JStr ''hi''" "[CHR 0x22, CHR ''h'', CHR ''i'', CHR 0x22]" quote_parse,
     OF a b c hi_no_tag] a b c hi_no_tag
  show ?thesis by simp
qed

text \<open>
  C1 as stated fails: \<open>data.split(T)[1]\<close> is the text between the first and the second
  occurrence of \<open>T\<close>, not the whole remainder. The payload that is the string
  \<open>__TAB__CUSTOM_EVENT__\<close> is supported by the quoting serializer, and its envelope
  under the name \<open>CUSTOM\<close> decodes to a lone double quote, which does not parse.
\<close>

theorem roundtrip_counterexample:
  "CUSTOM \<in> set event_names \<and>
   supports quote_stringify quote_parse (JStr CUSTOM) \<and>
   encode quote_stringify CUSTOM (JStr CUSTOM) = Some (CUSTOM @ [CHR 0x22] @ CUSTOM @ [CHR 0x22]) \<and>
   decode quote_parse (CUSTOM @ [CHR 0x22] @ CUSTOM @ [CHR 0x22]) CUSTOM = None"
  by (simp add: event_names_def supports_def quote_stringify_def quote_parse_def encode_def
      decode_def split_1_def js_split_def startsWith_def CUSTOM_def)





lemma preProcessMessage_result_framed:
  assumes "preProcessMessage ser msg = Inr (Text r)" and "r \<noteq> []"
  shows "js_indexOf r PARENT_COMMUNICATED \<noteq> - 1"
proof (cases "ser msg")
  case (Text s)
  show ?thesis
  proof (cases "s \<noteq> [] \<and> js_indexOf s PARENT_COMMUNICATED = - 1")
    case True
    with Text assms(1) have "r = [] @ PARENT_COMMUNICATED @ s"
      by (simp add: preProcessMessage_def)
    then show ?thesis unfolding js_indexOf_neg by blast
  next
    case False
    with Text assms show ?thesis by (auto simp: preProcessMessage_def)
  qed
qed (use assms in \<open>simp_all add: preProcessMessage_def\<close>)

text \<open>
  Whatever the serializer: when the step puts the name in front, the serialized text does
  not hold the name, so the result starts with one copy of it and not with two.
\<close>

lemma preProcessMessage_single_prefix:
  assumes "preProcessMessage ser msg = Inr (Text r)" and "ser msg \<noteq> Text r"
  shows "startsWith r PARENT_COMMUNICATED"
    and "\<not> startsWith r (PARENT_COMMUNICATED @ PARENT_COMMUNICATED)"
proof -
  from assms obtain s where s: "ser msg = Text s" "js_indexOf s PARENT_COMMUNICATED = - 1"
    "r = PARENT_COMMUNICATED @ s"
    by (cases "ser msg") (auto simp: preProcessMessage_def split: if_splits)
  show "startsWith r PARENT_COMMUNICATED"
    by (simp add: s(3) startsWith_def)
  show "\<not> startsWith r (PARENT_COMMUNICATED @ PARENT_COMMUNICATED)"
  proof
    assume "startsWith r (PARENT_COMMUNICATED @ PARENT_COMMUNICATED)"
    then have "take (length PARENT_COMMUNICATED) s = PARENT_COMMUNICATED"
      by (simp add: s(3) startsWith_def)
    then have "s = [] @ PARENT_COMMUNICATED @ drop (length PARENT_COMMUNICATED) s"
      by (metis append_Nil append_take_drop_id)
    with s(2) show False
      unfolding js_indexOf_neg by blast
  qed
qed



section \<open>Properties of the parent\<close>

lemma OPEN_neq_CLOSE: "OPEN \<noteq> CLOSE"
  by (simp add: OPEN_def CLOSE_def)

lemma advances_refl: "advances s s"
  by (simp add: advances_def)

lemma advances_trans: "advances s t \<Longrightarrow> advances t u \<Longrightarrow> advances s u"
  by (fastforce simp: advances_def)

lemma set_splice1: "set (splice1 k xs) \<subseteq> set xs"
proof -
  have "set (take i xs) \<subseteq> set xs" and "set (drop j xs) \<subseteq> set xs" for i j
    by (auto dest: in_set_takeD in_set_dropD)
  then show ?thesis by (auto simp: splice1_def Let_def)
qed

lemma remove_fields:
  "objs (tabUtils_remove t s) = objs s" "closed (tabUtils_remove t s) = closed s"
  "set (tabs (tabUtils_remove t s)) \<subseteq> set (tabs s)"
  using set_splice1 [of _ "tabs s"]
  by (auto simp: tabUtils_remove_def searchByKeyName_def Let_def
      split: search_result.splits option.splits returnPreferenceEnum.splits)

lemma remove_ok: "registry_ok s \<Longrightarrow> registry_ok (tabUtils_remove t s)"
  using remove_fields [of t s] by (auto simp: registry_ok_def)

lemma remove_advances: "advances s (tabUtils_remove t s)"
  by (simp add: advances_def remove_fields)

lemma watchStatus_ok: "registry_ok s \<Longrightarrow> registry_ok (watchStatus a s)"
  by (simp add: watchStatus_def Let_def remove_ok split: option.splits)

lemma watchStatus_advances: "advances s (watchStatus a s)"
  by (simp add: watchStatus_def Let_def remove_advances advances_refl split: option.splits)

lemma set_status_fields:
  "tabs (set_status a v s) = tabs s" "closed (set_status a v s) = closed s"
  "length (objs (set_status a v s)) = length (objs s)"
  by (simp_all add: set_status_def)

lemma set_status_ref: "tab_ref (objs (set_status a v s) ! b) = tab_ref (objs s ! b)"
  by (cases "a < length (objs s)") (simp_all add: set_status_def nth_list_update list_update_beyond)

lemma set_status_status:
  "b < length (objs s) \<Longrightarrow>
   tab_status (objs (set_status a v s) ! b) = (if b = a then v else tab_status (objs s ! b))"
  by (simp add: set_status_def nth_list_update)

lemma window_close_fields:
  "tabs (window_close h s) = tabs s" "objs (window_close h s) = objs s"
  "closed (window_close h s) = insert h (closed s)"
  by (simp_all add: window_close_def)

text \<open>The write of the polling loop: the status a window's flag gives.\<close>

lemma refresh_ok:
  assumes "registry_ok s" and "tab_ref (objs s ! a) = Some h"
  shows "registry_ok (set_status a (if h \<in> closed s then CLOSE else OPEN) s)"
  unfolding registry_ok_def
proof (intro conjI ballI allI impI)
  fix b assume "b \<in> set (tabs (set_status a (if h \<in> closed s then CLOSE else OPEN) s))"
  with assms(1) show "b < length (objs (set_status a (if h \<in> closed s then CLOSE else OPEN) s))"
    by (simp add: set_status_fields registry_ok_def)
next
  fix b assume "b < length (objs (set_status a (if h \<in> closed s then CLOSE else OPEN) s))"
  then have b: "b < length (objs s)" by (simp add: set_status_fields)
  with assms(1) have old: "tab_status (objs s ! b) = OPEN \<or>
      tab_status (objs s ! b) = CLOSE \<and> (\<exists>h. tab_ref (objs s ! b) = Some h \<and> h \<in> closed s)"
    by (simp add: registry_ok_def)
  show "tab_status (objs (set_status a (if h \<in> closed s then CLOSE else OPEN) s) ! b) = OPEN \<or>
      tab_status (objs (set_status a (if h \<in> closed s then CLOSE else OPEN) s) ! b) = CLOSE \<and>
      (\<exists>k. tab_ref (objs (set_status a (if h \<in> closed s then CLOSE else OPEN) s) ! b) = Some k \<and>
        k \<in> closed (set_status a (if h \<in> closed s then CLOSE else OPEN) s))"
  proof (cases "b = a")
    case True
    with b assms(2) show ?thesis by (simp add: set_status_fields set_status_ref set_status_status)
  next
    case False
    with b old show ?thesis by (simp add: set_status_fields set_status_ref set_status_status)
  qed
qed

lemma refresh_advances:
  assumes "registry_ok s" and "tab_ref (objs s ! a) = Some h"
  shows "advances s (set_status a (if h \<in> closed s then CLOSE else OPEN) s)"
  unfolding advances_def
proof (intro conjI allI impI)
  show "length (objs s) \<le> length (objs (set_status a (if h \<in> closed s then CLOSE else OPEN) s))"
    by (simp add: set_status_fields)
next
  fix b assume b: "b < length (objs s)" and c: "tab_status (objs s ! b) = CLOSE"
  from assms(1) b c OPEN_neq_CLOSE
  have "\<exists>k. tab_ref (objs s ! b) = Some k \<and> k \<in> closed s"
    by (auto simp: registry_ok_def)
  with assms(2) have "b = a \<Longrightarrow> h \<in> closed s" by auto
  with b c show "tab_status (objs (set_status a (if h \<in> closed s then CLOSE else OPEN) s) ! b) = CLOSE"
    by (simp add: set_status_status)
qed

text \<open>The write of \<open>closeTab\<close> and \<open>closeAll\<close>: close the window, set \<open>CLOSE\<close>.\<close>

lemma close_ok:
  assumes "registry_ok s" and "tab_ref (objs s ! a) = Some h"
  shows "registry_ok (set_status a CLOSE (window_close h s))"
  unfolding registry_ok_def
proof (intro conjI ballI allI impI)
  fix b assume "b \<in> set (tabs (set_status a CLOSE (window_close h s)))"
  with assms(1) show "b < length (objs (set_status a CLOSE (window_close h s)))"
    by (simp add: set_status_fields window_close_fields registry_ok_def)
next
  fix b assume "b < length (objs (set_status a CLOSE (window_close h s)))"
  then have b: "b < length (objs s)" by (simp add: set_status_fields window_close_fields)
  with assms(1) have old: "tab_status (objs s ! b) = OPEN \<or>
      tab_status (objs s ! b) = CLOSE \<and> (\<exists>h. tab_ref (objs s ! b) = Some h \<and> h \<in> closed s)"
    by (simp add: registry_ok_def)
  show "tab_status (objs (set_status a CLOSE (window_close h s)) ! b) = OPEN \<or>
      tab_status (objs (set_status a CLOSE (window_close h s)) ! b) = CLOSE \<and>
      (\<exists>k. tab_ref (objs (set_status a CLOSE (window_close h s)) ! b) = Some k \<and>
        k \<in> closed (set_status a CLOSE (window_close h s)))"
  proof (cases "b = a")
    case True
    with b assms(2) show ?thesis
      by (simp add: set_status_fields set_status_ref set_status_status window_close_fields)
  next
    case False
    with b old show ?thesis
      by (auto simp add: set_status_fields set_status_ref set_status_status window_close_fields)
  qed
qed

lemma close_advances: "advances s (set_status a CLOSE (window_close h s))"
  by (simp add: advances_def set_status_fields set_status_status window_close_fields)

lemma poll_body_ok: "registry_ok s \<Longrightarrow> registry_ok (poll_body this i s)"
  by (simp add: poll_body_def Let_def watchStatus_ok refresh_ok split: option.splits)

lemma poll_body_advances:
  assumes "registry_ok s"
  shows "advances s (poll_body this i s)"
proof -
  define s1 where "s1 = (if removeClosedTabs this then watchStatus (tabs s ! i) s else s)"
  have ok1: "registry_ok s1" and adv1: "advances s s1"
    using assms by (simp_all add: s1_def watchStatus_ok watchStatus_advances advances_refl)
  have "advances s1 (poll_body this i s)"
    using ok1 by (simp add: poll_body_def Let_def s1_def [symmetric] refresh_advances advances_refl
        split: option.splits)
  with adv1 show ?thesis by (rule advances_trans)
qed

lemma poll_loop_ok_advances:
  "registry_ok s \<Longrightarrow> registry_ok (poll_loop this i s) \<and> advances s (poll_loop this i s)"
proof (induction this i s rule: poll_loop.induct)
  case (1 this i s)
  show ?case
  proof (cases "i < length (tabs s)")
    case True
    from "1.prems" have ok: "registry_ok (poll_body this i s)" by (rule poll_body_ok)
    from "1.IH" [OF True ok]
    have ok': "registry_ok (poll_loop this (Suc i) (poll_body this i s))"
      and adv: "advances (poll_body this i s) (poll_loop this (Suc i) (poll_body this i s))"
      by simp_all
    from poll_body_advances [OF "1.prems"] adv
    have "advances s (poll_loop this (Suc i) (poll_body this i s))" by (rule advances_trans)
    with ok' True show ?thesis by (simp add: poll_loop.simps [of this i s])
  next
    case False
    with "1.prems" show ?thesis by (simp add: advances_refl poll_loop.simps [of this i s])
  qed
qed

lemma registry_ok_cong:
  "tabs t = tabs s \<Longrightarrow> objs t = objs s \<Longrightarrow> closed t = closed s \<Longrightarrow>
   registry_ok t = registry_ok s"
  by (simp add: registry_ok_def)

lemma advances_cong: "objs t = objs u \<Longrightarrow> advances s t = advances s u"
  by (simp add: advances_def)

lemma addInterval_ok:
  assumes "registry_ok s"
  shows "registry_ok (addInterval this s)"
proof (cases "getOpened s = []")
  case True
  have "registry_ok ((clearInterval (heartBeat s) s)\<lparr>heartBeat := None\<rparr>) = registry_ok s"
    by (rule registry_ok_cong) (simp_all add: clearInterval_def split: option.splits)
  with True assms show ?thesis by (simp add: addInterval_def)
next
  case False
  from assms have ok: "registry_ok (poll_loop this 0 s)"
    by (simp add: poll_loop_ok_advances)
  have "registry_ok ((poll_loop this 0 s)\<lparr>polling_callbacks :=
      Suc (polling_callbacks (poll_loop this 0 s))\<rparr>) = registry_ok (poll_loop this 0 s)"
    by (rule registry_ok_cong) simp_all
  with False ok show ?thesis by (simp add: addInterval_def Let_def)
qed

lemma addInterval_advances:
  assumes "registry_ok s"
  shows "advances s (addInterval this s)"
proof (cases "getOpened s = []")
  case True
  have "advances s ((clearInterval (heartBeat s) s)\<lparr>heartBeat := None\<rparr>) = advances s s"
    by (rule advances_cong) (simp add: clearInterval_def split: option.splits)
  with True show ?thesis by (simp add: addInterval_def advances_refl)
next
  case False
  from assms have adv: "advances s (poll_loop this 0 s)"
    by (simp add: poll_loop_ok_advances)
  have "advances s ((poll_loop this 0 s)\<lparr>polling_callbacks :=
      Suc (polling_callbacks (poll_loop this 0 s))\<rparr>) = advances s (poll_loop this 0 s)"
    by (rule advances_cong) simp
  with False adv show ?thesis by (simp add: addInterval_def Let_def)
qed

lemma closeTab_ok: "registry_ok s \<Longrightarrow> registry_ok (closeTab i s)"
  by (simp add: closeTab_def close_ok split: search_result.splits option.splits)

lemma closeTab_advances: "advances s (closeTab i s)"
  by (simp add: closeTab_def close_advances advances_refl split: search_result.splits option.splits)

lemma closeAll_step_ok: "registry_ok s \<Longrightarrow> registry_ok (closeAll_step s a)"
  by (simp add: closeAll_step_def close_ok split: option.splits)

lemma closeAll_step_advances: "advances s (closeAll_step s a)"
  by (simp add: closeAll_step_def close_advances advances_refl split: option.splits)

lemma foldl_closeAll_step:
  "registry_ok s \<Longrightarrow>
   registry_ok (foldl closeAll_step s as) \<and> advances s (foldl closeAll_step s as)"
proof (induction as arbitrary: s)
  case Nil
  then show ?case by (simp add: advances_refl)
next
  case (Cons a as)
  from Cons.prems have "registry_ok (closeAll_step s a)" by (rule closeAll_step_ok)
  from Cons.IH [OF this]
  have ok': "registry_ok (foldl closeAll_step (closeAll_step s a) as)"
    and adv: "advances (closeAll_step s a) (foldl closeAll_step (closeAll_step s a) as)"
    by simp_all
  from closeAll_step_advances adv
  have "advances s (foldl closeAll_step (closeAll_step s a) as)" by (rule advances_trans)
  with ok' show ?case by simp
qed

lemma closeAll_ok: "registry_ok s \<Longrightarrow> registry_ok (closeAll s)"
  by (simp add: closeAll_def foldl_closeAll_step)

lemma closeAll_advances: "registry_ok s \<Longrightarrow> advances s (closeAll s)"
  by (simp add: closeAll_def foldl_closeAll_step)


lemma Tab_create_ok: "registry_ok s \<Longrightarrow> registry_ok (snd (Tab_create c u w s))"
  by (auto simp: Tab_create_def Let_def addNew_def registry_ok_def nth_append OPEN_def)

lemma Tab_create_advances: "advances s (snd (Tab_create c u w s))"
  by (auto simp: Tab_create_def Let_def addNew_def advances_def nth_append)

lemma openNewTab_state:
  "snd (openNewTab this c r w s) = s \<or>
   (\<exists>cfg. tabs (snd (openNewTab this c r w s)) = tabs (snd (Tab_create cfg (UUID_generate r) w s)) \<and>
      objs (snd (openNewTab this c r w s)) = objs (snd (Tab_create cfg (UUID_generate r) w s)) \<and>
      closed (snd (openNewTab this c r w s)) = closed (snd (Tab_create cfg (UUID_generate r) w s)))"
  by (cases c) (auto simp: openNewTab_def Let_def startPollingTabs_def case_prod_beta)

lemma openNewTab_ok:
  assumes "registry_ok s"
  shows "registry_ok (snd (openNewTab this c r w s))"
proof -
  from openNewTab_state [of this c r w s] show ?thesis
  proof (elim disjE exE conjE)
    assume "snd (openNewTab this c r w s) = s"
    with assms show ?thesis by simp
  next
    fix cfg
    assume "tabs (snd (openNewTab this c r w s)) = tabs (snd (Tab_create cfg (UUID_generate r) w s))"
      and "objs (snd (openNewTab this c r w s)) = objs (snd (Tab_create cfg (UUID_generate r) w s))"
      and "closed (snd (openNewTab this c r w s)) = closed (snd (Tab_create cfg (UUID_generate r) w s))"
    then have "registry_ok (snd (openNewTab this c r w s))
        = registry_ok (snd (Tab_create cfg (UUID_generate r) w s))"
      by (rule registry_ok_cong)
    with assms show ?thesis by (simp add: Tab_create_ok)
  qed
qed

lemma openNewTab_advances: "advances s (snd (openNewTab this c r w s))"
proof -
  from openNewTab_state [of this c r w s] show ?thesis
  proof (elim disjE exE conjE)
    assume "snd (openNewTab this c r w s) = s"
    then show ?thesis by (simp add: advances_refl)
  next
    fix cfg
    assume "objs (snd (openNewTab this c r w s)) = objs (snd (Tab_create cfg (UUID_generate r) w s))"
    then have "advances s (snd (openNewTab this c r w s))
        = advances s (snd (Tab_create cfg (UUID_generate r) w s))"
      by (rule advances_cong)
    then show ?thesis by (simp add: Tab_create_advances)
  qed
qed

lemma constructor_ok: "registry_ok s \<Longrightarrow> registry_ok (snd (Parent_constructor jp js c s))"
  by (auto simp: Parent_constructor_def Parent_init_def Let_def registry_ok_def)

lemma constructor_advances: "advances s (snd (Parent_constructor jp js c s))"
  by (auto simp: Parent_constructor_def Parent_init_def Let_def advances_def)

lemma window_close_ok: "registry_ok s \<Longrightarrow> registry_ok (window_close h s)"
  by (auto simp: window_close_def registry_ok_def)

lemma window_close_advances: "advances s (window_close h s)"
  by (simp add: window_close_def advances_def)

lemma step_ok: "registry_ok s \<Longrightarrow> registry_ok (step s op)"
  by (cases op)
    (simp_all add: constructor_ok openNewTab_ok closeTab_ok closeAll_ok addInterval_ok
      watchStatus_ok remove_ok window_close_ok)

lemma step_advances: "registry_ok s \<Longrightarrow> advances s (step s op)"
  by (cases op)
    (simp_all add: constructor_advances openNewTab_advances closeTab_advances closeAll_advances
      addInterval_advances watchStatus_advances remove_advances window_close_advances
      advances_refl)

lemma run_ok_advances: "registry_ok s \<Longrightarrow> registry_ok (run s ops) \<and> advances s (run s ops)"
  unfolding run_def
proof (induction ops arbitrary: s)
  case Nil
  then show ?case by (simp add: advances_refl)
next
  case (Cons op ops)
  from Cons.prems have "registry_ok (step s op)" by (rule step_ok)
  from Cons.IH [OF this]
  have ok': "registry_ok (foldl step (step s op) ops)"
    and adv: "advances (step s op) (foldl step (step s op) ops)"
    by simp_all
  from step_advances [OF Cons.prems] adv
  have "advances s (foldl step (step s op) ops)" by (rule advances_trans)
  with ok' show ?case by simp
qed

lemma initial_ok: "registry_ok initial_state"
  by (simp add: registry_ok_def initial_state_def)


lemma UUID_generate_nonempty: "UUID_generate r \<noteq> []"
  by (simp add: UUID_generate_def)



lemma getOpened_getClosed_partition:
  assumes "registry_ok s"
  shows "set (getOpened s) \<union> set (getClosed s) = set (getAll s)"
    and "set (getOpened s) \<inter> set (getClosed s) = {}"
    and "\<forall>a \<in> set (getAll s). tab_status (objs s ! a) = OPEN \<or> tab_status (objs s ! a) = CLOSE"
proof -
  from assms show all: "\<forall>a \<in> set (getAll s).
      tab_status (objs s ! a) = OPEN \<or> tab_status (objs s ! a) = CLOSE"
    by (auto simp: registry_ok_def getAll_def)
  then show "set (getOpened s) \<union> set (getClosed s) = set (getAll s)"
    by (auto simp: getOpened_def getClosed_def getAll_def)
  show "set (getOpened s) \<inter> set (getClosed s) = {}"
    using OPEN_neq_CLOSE by (auto simp: getOpened_def getClosed_def)
qed

text \<open>
  C5. After any sequence of calls from the load of the module, every record of
  \<open>getAll()\<close> is in \<open>getOpened()\<close> or in \<open>getClosed()\<close>, never in both, and its status
  is \<open>OPEN\<close> or \<open>CLOSE\<close>. Records enter the registry through \<open>Tab.create\<close> alone,
  which sets the status \<open>'open'\<close>.
\<close>

theorem registry_partition:
  "set (getOpened (run initial_state ops)) \<union> set (getClosed (run initial_state ops))
     = set (getAll (run initial_state ops)) \<and>
   set (getOpened (run initial_state ops)) \<inter> set (getClosed (run initial_state ops)) = {} \<and>
   (\<forall>a \<in> set (getAll (run initial_state ops)).
      tab_status (objs (run initial_state ops) ! a) = OPEN \<or>
      tab_status (objs (run initial_state ops) ! a) = CLOSE)"
proof -
  have "registry_ok (run initial_state ops)"
    using initial_ok by (simp add: run_ok_advances)
  then show ?thesis
    by (intro conjI getOpened_getClosed_partition)
qed

text \<open>
  C6. \<open>openNewTab\<close> throws \<open>CONFIG_REQUIRED\<close> when the configuration is missing and
  \<open>URL_REQUIRED\<close> when its \<open>url\<close> is falsy, and leaves the state as it was; otherwise
  it appends one new \<open>Tab\<close> to the registry, with the status \<open>OPEN\<close> and the
  non-empty id of \<open>UUID.generate\<close>, and sets the interval timer when \<open>heartBeat\<close>
  holds none.
\<close>

theorem openNewTab_contract:
  "(cfg = None \<longrightarrow> openNewTab this cfg r opened s = (Inl CONFIG_REQUIRED, s)) \<and>
   (\<forall>c. cfg = Some c \<and> \<not> truthy (cfg_url c) \<longrightarrow>
      openNewTab this cfg r opened s = (Inl URL_REQUIRED, s)) \<and>
   (\<forall>c. cfg = Some c \<and> truthy (cfg_url c) \<longrightarrow>
      fst (openNewTab this cfg r opened s) = Inr (length (objs s)) \<and>
      tabs (snd (openNewTab this cfg r opened s)) = tabs s @ [length (objs s)] \<and>
      (\<exists>t. objs (snd (openNewTab this cfg r opened s)) = objs s @ [t] \<and>
           tab_status t = OPEN \<and> tab_id t = IdStr (UUID_generate r) \<and> UUID_generate r \<noteq> []) \<and>
      (if heartBeat s = None \<or> heartBeat s = Some 0
       then heartBeat (snd (openNewTab this cfg r opened s)) = Some (next_timer s) \<and>
            intervals (snd (openNewTab this cfg r opened s)) = next_timer s # intervals s
       else heartBeat (snd (openNewTab this cfg r opened s)) = heartBeat s \<and>
            intervals (snd (openNewTab this cfg r opened s)) = intervals s))"
proof (intro conjI impI allI)
  assume "cfg = None"
  then show "openNewTab this cfg r opened s = (Inl CONFIG_REQUIRED, s)"
    by (simp add: openNewTab_def)
next
  fix c assume "cfg = Some c \<and> \<not> truthy (cfg_url c)"
  then show "openNewTab this cfg r opened s = (Inl URL_REQUIRED, s)"
    by (simp add: openNewTab_def)
next
  fix c assume c: "cfg = Some c \<and> truthy (cfg_url c)"
  then show "fst (openNewTab this cfg r opened s) = Inr (length (objs s))"
    by (simp add: openNewTab_def Tab_create_def Let_def)
  from c show "tabs (snd (openNewTab this cfg r opened s)) = tabs s @ [length (objs s)]"
    by (simp add: openNewTab_def Tab_create_def Let_def addNew_def startPollingTabs_def)
  from c show "\<exists>t. objs (snd (openNewTab this cfg r opened s)) = objs s @ [t] \<and>
      tab_status t = OPEN \<and> tab_id t = IdStr (UUID_generate r) \<and> UUID_generate r \<noteq> []"
    by (simp add: openNewTab_def Tab_create_def Let_def addNew_def startPollingTabs_def
        UUID_generate_nonempty OPEN_def)
  from c show "if heartBeat s = None \<or> heartBeat s = Some 0
       then heartBeat (snd (openNewTab this cfg r opened s)) = Some (next_timer s) \<and>
            intervals (snd (openNewTab this cfg r opened s)) = next_timer s # intervals s
       else heartBeat (snd (openNewTab this cfg r opened s)) = heartBeat s \<and>
            intervals (snd (openNewTab this cfg r opened s)) = intervals s"
    by (simp add: openNewTab_def Tab_create_def Let_def addNew_def startPollingTabs_def)
qed


lemmas run_defs = run_def initial_state_def openNewTab_def Tab_create_def example_config_def
  addNew_def startPollingTabs_def closeAll_def closeAll_step_def set_status_def window_close_def
  UUID_generate_nonempty Let_def addInterval_def getOpened_def getClosed_def getAll_def
  poll_loop.simps poll_body_def example_parent_def Parent_constructor_def Parent_init_def
  OPEN_def CLOSE_def clearInterval_def


text \<open>
  The tick writes what the window says: a record whose window is not closed gets the
  status \<open>OPEN\<close>, whatever its status was.
\<close>

lemma poll_body_follows_window:
  assumes "\<not> removeClosedTabs this" and "i < length (tabs s)" and "tabs s ! i < length (objs s)"
    and "tab_ref (objs s ! (tabs s ! i)) = Some h" and "h \<notin> closed s"
  shows "tab_status (objs (poll_body this i s) ! (tabs s ! i)) = OPEN"
  using assms by (simp add: poll_body_def Let_def set_status_def)

theorem registry_partition_witness:
  "getAll (run initial_state one_closed_of_two) = [0, 1] \<and>
   getOpened (run initial_state one_closed_of_two) = [1] \<and>
   getClosed (run initial_state one_closed_of_two) = [0] \<and>
   set (getOpened (run initial_state one_closed_of_two))
     \<union> set (getClosed (run initial_state one_closed_of_two))
     = set (getAll (run initial_state one_closed_of_two)) \<and>
   set (getOpened (run initial_state one_closed_of_two))
     \<inter> set (getClosed (run initial_state one_closed_of_two)) = {}"
proof -
  have a: "getAll (run initial_state one_closed_of_two) = [0, 1]"
    by (simp add: one_closed_of_two_def run_defs)
  have b: "getOpened (run initial_state one_closed_of_two) = [1]"
    by (simp add: one_closed_of_two_def run_defs)
  have c: "getClosed (run initial_state one_closed_of_two) = [0]"
    by (simp add: one_closed_of_two_def run_defs)
  from registry_partition [of one_closed_of_two] a b c show ?thesis by simp
qed

theorem openNewTab_contract_witness:
  "openNewTab example_parent None example_random (Some 7) initial_state
     = (Inl CONFIG_REQUIRED, initial_state) \<and>
   openNewTab example_parent (Some (example_config\<lparr>cfg_url := JUndefined\<rparr>)) example_random
     (Some 7) initial_state = (Inl URL_REQUIRED, initial_state) \<and>
   truthy (cfg_url example_config) \<and>
   fst (openNewTab example_parent (Some example_config) example_random (Some 7) initial_state)
     = Inr 0 \<and>
   tabs (snd (openNewTab example_parent (Some example_config) example_random (Some 7)
     initial_state)) = [0] \<and>
   heartBeat (snd (openNewTab example_parent (Some example_config) example_random (Some 7)
     initial_state)) = Some 1 \<and>
   intervals (snd (openNewTab example_parent (Some example_config) example_random (Some 7)
     initial_state)) = [1]"
proof -
  have u: "\<not> truthy (cfg_url (example_config\<lparr>cfg_url := JUndefined\<rparr>))" by simp
  have t: "truthy (cfg_url example_config)" by (simp add: example_config_def)
  have i: "objs initial_state = []" "tabs initial_state = []" "heartBeat initial_state = None"
    "next_timer initial_state = 1" "intervals initial_state = []"
    by (simp_all add: initial_state_def)
  from openNewTab_contract [of None example_parent example_random "Some 7" initial_state]
    openNewTab_contract [of "Some (example_config\<lparr>cfg_url := JUndefined\<rparr>)" example_parent
      example_random "Some 7" initial_state]
    openNewTab_contract [of "Some example_config" example_parent example_random "Some 7"
      initial_state]
    u t i
  show ?thesis by simp
qed

section \<open>Properties of the child\<close>

lemmas child_defs = Child_constructor_def Child_init_def addListeners_def
  removeEventListener_arrow_def addEventListener_arrow_def restoreData_def getData_def
  parseData_def sendMessageToParent_def targetOrigin_def getTabInfo_def setHandshakeExpiry_def call_def
  encode_def decode_def and_prop_def onCommunication_def onHandshakeWithParent_def
  onParentCommunicated_def setData_def clearTimeout_def deliver_def deliver_step_def
  example_options_def example_window_def example_parse_def example_stringify_def
  quote_parse_def quote_stringify_def ack_payload_def ack_value_def Let_def
  js_indexOf_def split_1_def js_split_def startsWith_def


lemma call_fields:
  "timeouts (call cb s) = timeouts s" "listeners (call cb s) = listeners s"
  "next_function (call cb s) = next_function s" "config (call cb s) = config s"
  "tabId (call cb s) = tabId s" "tabName (call cb s) = tabName s"
  "tabParentName (call cb s) = tabParentName s" "sessionStorage (call cb s) = sessionStorage s"
  "posted (call cb s) = posted s" "opener (call cb s) = opener s"
  "isSessionStorageSupported (call cb s) = isSessionStorageSupported s"
  "sessionStorageKey (call cb s) = sessionStorageKey s"
  by (simp_all add: call_def)

lemma removeEventListener_arrow_fields:
  "timeouts (removeEventListener_arrow s) = timeouts s"
  "config (removeEventListener_arrow s) = config s"
  "tabId (removeEventListener_arrow s) = tabId s" "tabName (removeEventListener_arrow s) = tabName s"
  "tabParentName (removeEventListener_arrow s) = tabParentName s"
  "sessionStorage (removeEventListener_arrow s) = sessionStorage s"
  "posted (removeEventListener_arrow s) = posted s" "opener (removeEventListener_arrow s) = opener s"
  "isSessionStorageSupported (removeEventListener_arrow s) = isSessionStorageSupported s"
  "sessionStorageKey (removeEventListener_arrow s) = sessionStorageKey s"
  by (simp_all add: removeEventListener_arrow_def Let_def)

lemma clearTimeout_fields:
  "listeners (clearTimeout h s) = listeners s" "next_function (clearTimeout h s) = next_function s"
  "config (clearTimeout h s) = config s"
  "tabId (clearTimeout h s) = tabId s" "tabName (clearTimeout h s) = tabName s"
  "tabParentName (clearTimeout h s) = tabParentName s"
  "sessionStorage (clearTimeout h s) = sessionStorage s"
  "posted (clearTimeout h s) = posted s" "opener (clearTimeout h s) = opener s"
  "isSessionStorageSupported (clearTimeout h s) = isSessionStorageSupported s"
  "sessionStorageKey (clearTimeout h s) = sessionStorageKey s"
  by (simp_all add: clearTimeout_def split: option.splits)

lemma onParentCommunicated_fields:
  "timeouts (snd (onParentCommunicated d s)) = timeouts s"
  "listeners (snd (onParentCommunicated d s)) = listeners s"
  "next_function (snd (onParentCommunicated d s)) = next_function s"
  "tabId (snd (onParentCommunicated d s)) = tabId s"
  "tabName (snd (onParentCommunicated d s)) = tabName s"
  "tabParentName (snd (onParentCommunicated d s)) = tabParentName s"
  "sessionStorage (snd (onParentCommunicated d s)) = sessionStorage s"
  "posted (snd (onParentCommunicated d s)) = posted s"
  by (simp_all add: onParentCommunicated_def call_fields split: option.splits)

lemma sendMessageToParent_fields:
  "timeouts (snd (sendMessageToParent msg t s)) = timeouts s"
  "listeners (snd (sendMessageToParent msg t s)) = listeners s"
  "next_function (snd (sendMessageToParent msg t s)) = next_function s"
  "config (snd (sendMessageToParent msg t s)) = config s"
  by (simp_all add: sendMessageToParent_def Let_def split: option.splits)

lemma parseData_fields:
  "timeouts (snd (parseData v s)) = timeouts s"
  "listeners (snd (parseData v s)) = listeners s"
  "next_function (snd (parseData v s)) = next_function s"
  "config (snd (parseData v s)) = config s"
  by (simp_all add: parseData_def split: option.splits)

lemma setData_fields:
  "timeouts (setData v s) = timeouts s" "listeners (setData v s) = listeners s"
  "next_function (setData v s) = next_function s" "config (setData v s) = config s"
  by (simp_all add: setData_def)

lemma onHandshakeWithParent_fields:
  "timeouts (snd (onHandshakeWithParent d s)) = timeouts s"
  "listeners (snd (onHandshakeWithParent d s)) = listeners s"
  "next_function (snd (onHandshakeWithParent d s)) = next_function s"
proof -
  define s1 where "s1 = setData (split_1 d HANDSHAKE_WITH_PARENT) s"
  define s2 where "s2 = snd (parseData (split_1 d HANDSHAKE_WITH_PARENT) s1)"
  define s3 where "s3 = snd (sendMessageToParent
    (JObj [(''id'', tabId s2), (''isSiteInsideFrame'', isSiteInsideFrame (config s2))])
    (Some HANDSHAKE) s2)"
  have same: "timeouts s3 = timeouts s \<and> listeners s3 = listeners s \<and>
      next_function s3 = next_function s"
    "timeouts s2 = timeouts s \<and> listeners s2 = listeners s \<and>
      next_function s2 = next_function s"
    by (simp_all add: s3_def s2_def s1_def sendMessageToParent_fields parseData_fields
        setData_fields)
  have "snd (onHandshakeWithParent d s) = s2 \<or> snd (onHandshakeWithParent d s) = s3 \<or>
      snd (onHandshakeWithParent d s) = call Initialize s3"
    by (auto simp: onHandshakeWithParent_def Let_def s1_def s2_def s3_def
        split: prod.splits option.splits)
  with same show "timeouts (snd (onHandshakeWithParent d s)) = timeouts s"
    "listeners (snd (onHandshakeWithParent d s)) = listeners s"
    "next_function (snd (onHandshakeWithParent d s)) = next_function s"
    by (auto simp: call_fields)
qed

text \<open>The state in which the handler looks at the names: the timer is cleared.\<close>

lemma onCommunication_accepted:
  assumes "accepted this m"
  obtains d where "data m = JStr d" and "d \<noteq> []"
    and "onCommunication m this =
      (let s1 = clearTimeout (timeout this) this;
           s2 = (if - 1 < js_indexOf d PARENT_DISCONNECTED
                 then removeEventListener_arrow
                        (if onParentDisconnect (config s1) then call ParentDisconnect s1 else s1)
                 else s1);
           (e3, s3) = (if - 1 < js_indexOf d HANDSHAKE_WITH_PARENT
                       then onHandshakeWithParent d s2 else (None, s2))
       in case e3 of
            Some e \<Rightarrow> (Some e, s3)
          | None \<Rightarrow>
              if - 1 < js_indexOf d PARENT_COMMUNICATED then onParentCommunicated d s3
              else (None, s3))"
proof -
  from assms obtain d where d: "data m = JStr d" "d \<noteq> []"
    by (auto simp: accepted_def split: jsval.splits)
  from assms have "\<not> (case config_origin (config this) of
      None \<Rightarrow> False | Some cfo \<Rightarrow> cfo \<noteq> [] \<and> cfo \<noteq> msg_origin m)"
    by (auto simp: accepted_def split: option.splits)
  with d show ?thesis
    by (intro that [of d]) (simp_all add: onCommunication_def)
qed

lemma onCommunication_timeouts:
  assumes "accepted this m"
  shows "timeouts (snd (onCommunication m this)) = timeouts (clearTimeout (timeout this) this)"
proof -
  from assms obtain d where eq: "onCommunication m this =
      (let s1 = clearTimeout (timeout this) this;
           s2 = (if - 1 < js_indexOf d PARENT_DISCONNECTED
                 then removeEventListener_arrow
                        (if onParentDisconnect (config s1) then call ParentDisconnect s1 else s1)
                 else s1);
           (e3, s3) = (if - 1 < js_indexOf d HANDSHAKE_WITH_PARENT
                       then onHandshakeWithParent d s2 else (None, s2))
       in case e3 of
            Some e \<Rightarrow> (Some e, s3)
          | None \<Rightarrow>
              if - 1 < js_indexOf d PARENT_COMMUNICATED then onParentCommunicated d s3
              else (None, s3))"
    by (rule onCommunication_accepted)
  show ?thesis
    unfolding eq
    by (simp add: Let_def case_prod_beta call_fields removeEventListener_arrow_fields
        onHandshakeWithParent_fields onParentCommunicated_fields split: option.splits)
qed

text \<open>
  C8, as amended. For every message the child accepts (the data is a string that is not
  empty, and the origin is the configured one when one is configured), whatever names
  the data holds, the handler clears the timer of \<open>this.timeout\<close> and sets no other: the
  handle of the expiry timer is not pending afterwards.
\<close>

theorem expiry_timer_cancelled:
  assumes "accepted this m"
  shows "timeouts (snd (onCommunication m this)) = timeouts (clearTimeout (timeout this) this) \<and>
    (\<forall>h. timeout this = Some h \<longrightarrow> h \<notin> set (timeouts (snd (onCommunication m this))))"
  using onCommunication_timeouts [OF assms] by (simp add: clearTimeout_def)


theorem expiry_timer_cancelled_witness:
  "accepted example_child hello_message \<and>
   timeout example_child = Some 1 \<and> timeouts example_child = [1] \<and>
   timeouts (snd (onCommunication hello_message example_child))
     = timeouts (clearTimeout (timeout example_child) example_child) \<and>
   timeouts (snd (onCommunication hello_message example_child)) = []"
proof -
  have a: "accepted example_child hello_message"
    by (simp add: accepted_def hello_message_def example_child_def child_defs)
  have b: "timeout example_child = Some 1" "timeouts example_child = [1]"
    by (simp_all add: example_child_def child_defs event_name_defs)
  from expiry_timer_cancelled [OF a] a b show ?thesis
    by (simp add: clearTimeout_def)
qed

text \<open>
  C8 as stated fails for a string payload that is empty: the handler returns at its first
  guard and the expiry timer is still pending.
\<close>

theorem expiry_timer_counterexample:
  "data empty_message = JStr [] \<and>
   config_origin (config example_child) = None \<and>
   timeout example_child = Some 1 \<and>
   timeouts (snd (onCommunication empty_message example_child)) = [1]"
  by (simp add: empty_message_def example_child_def child_defs event_name_defs)







text \<open>
  The handler leaves the listeners of the window as they are: the function it asks the
  window to remove is one the window has never seen.
\<close>

lemma onCommunication_listeners:
  assumes "\<forall>f \<in> set (listeners this). f < next_function this"
  shows "listeners (snd (onCommunication m this)) = listeners this"
proof (cases "accepted this m")
  case True
  then obtain d where eq: "onCommunication m this =
      (let s1 = clearTimeout (timeout this) this;
           s2 = (if - 1 < js_indexOf d PARENT_DISCONNECTED
                 then removeEventListener_arrow
                        (if onParentDisconnect (config s1) then call ParentDisconnect s1 else s1)
                 else s1);
           (e3, s3) = (if - 1 < js_indexOf d HANDSHAKE_WITH_PARENT
                       then onHandshakeWithParent d s2 else (None, s2))
       in case e3 of
            Some e \<Rightarrow> (Some e, s3)
          | None \<Rightarrow>
              if - 1 < js_indexOf d PARENT_COMMUNICATED then onParentCommunicated d s3
              else (None, s3))"
    by (rule onCommunication_accepted)
  from assms have fresh: "removeAll (next_function this) (listeners this) = listeners this"
    by (auto simp: removeAll_id)
  have rm: "listeners (removeEventListener_arrow s) = listeners this"
    if "listeners s = listeners this" and "next_function s = next_function this" for s
    using that fresh by (simp add: removeEventListener_arrow_def Let_def)
  show ?thesis
    unfolding eq
    by (simp add: Let_def case_prod_beta rm call_fields clearTimeout_fields
        onHandshakeWithParent_fields onParentCommunicated_fields split: option.splits)
next
  case False
  then have "onCommunication m this = (None, this)"
    by (auto simp: onCommunication_def accepted_def split: jsval.splits option.splits)
  then show ?thesis by simp
qed

text \<open>
  C9. The parent's notice \<open>PARENT_DISCONNECTED\<close> arrives at a child that listens with
  one function. The disconnect callback is called, the listener is still registered, and
  the next broadcast of the parent is processed: its callback is called, where the
  claim says no further message is processed.
\<close>

theorem parent_disconnect_keeps_listening:
  "preProcessMessage quote_stringify (JStr PARENT_DISCONNECTED)
     = Inr (Text (PARENT_COMMUNICATED @ [CHR 0x22] @ PARENT_DISCONNECTED @ [CHR 0x22])) \<and>
   accepted example_child disconnect_message \<and>
   listeners example_child = [1] \<and>
   listeners (snd (deliver disconnect_message example_child)) = [1] \<and>
   callbacks (snd (deliver disconnect_message example_child))
     = [ParentDisconnect, ParentCommunication (JStr PARENT_DISCONNECTED)] \<and>
   callbacks (snd (deliver hello_message (snd (deliver disconnect_message example_child))))
     = [ParentDisconnect, ParentCommunication (JStr PARENT_DISCONNECTED),
        ParentCommunication (JStr ''hello'')]"
  by (simp add: preProcessMessage_def accepted_def disconnect_message_def hello_message_def
      example_child_def child_defs event_name_defs)

end
